theory Spec2Isabelle
  imports Main "HOL-Library.Sublist"
begin

section \<open>Strings\<close>

text \<open>
  A Python \<open>str\<close> is a sequence of code points. The two string operations the program
  uses, \<open>str.replace\<close> and \<open>str.join\<close>, are written for lists over any character type,
  so that nothing proved about them depends on the size of the alphabet; the documents
  and the JSON values below use \<open>string\<close>, one \<open>char\<close> standing for one code point.
\<close>

text \<open>
  \<open>old.join(parts)\<close>: the parts in order, the separator between any two neighbours.
\<close>

fun str_join :: "'c list \<Rightarrow> 'c list list \<Rightarrow> 'c list" where
  "str_join sep [] = []"
| "str_join sep [x] = x"
| "str_join sep (x # y # ys) = x @ sep @ str_join sep (y # ys)"

text \<open>
  \<open>text.replace(old, new)\<close> with a non-empty \<open>old\<close>: the text is scanned from the left,
  every occurrence of \<open>old\<close> found is replaced by \<open>new\<close>, and the scan goes on behind the
  occurrence, so that occurrences do not overlap and \<open>new\<close> is never scanned.
\<close>

function replace_from :: "'c list \<Rightarrow> 'c list \<Rightarrow> 'c list \<Rightarrow> 'c list" where
  "replace_from old new [] = []"
| "replace_from old new (c # cs) =
     (if old \<noteq> [] \<and> prefix old (c # cs)
      then new @ replace_from old new (drop (length old) (c # cs))
      else c # replace_from old new cs)"
  by pat_completeness auto
termination
  by (relation "measure (\<lambda>(old, new, s). length s)") (auto simp: neq_Nil_conv)

text \<open>
  With the empty \<open>old\<close> Python interleaves: \<open>new\<close> is laid down once, then each character
  of the text followed by \<open>new\<close>.
\<close>

definition replace_interleave :: "'c list \<Rightarrow> 'c list \<Rightarrow> 'c list" where
  "replace_interleave new s = new @ concat (map (\<lambda>c. c # new) s)"

definition str_replace :: "'c list \<Rightarrow> 'c list \<Rightarrow> 'c list \<Rightarrow> 'c list" where
  "str_replace s old new =
     (if old = [] then replace_interleave new s else replace_from old new s)"

section \<open>Errors and JSON values\<close>

text \<open>
  The exceptions the program can meet. \<open>ValueError\<close> is the one the program raises itself
  (with its message); the others are raised by Python or by the libraries.
\<close>

datatype error =
    ValueError string
  | JSONDecodeError
  | TypeError
  | AttributeError
  | LibraryError string

text \<open>
  What \<open>json.loads\<close> returns. An object is a Python \<open>dict\<close>: its entries in insertion
  order, which is the order \<open>.items()\<close> iterates in; the keys of a \<open>dict\<close> are distinct.
  A number is kept as its literal, the program never computes with one.
\<close>

datatype json =
    JNull
  | JBool bool
  | JNum string
  | JStr string
  | JArr "json list"
  | JObj "(string \<times> json) list"

text \<open>
  \<open>d.items()\<close>: only a \<open>dict\<close> has the attribute.
\<close>

definition items :: "json \<Rightarrow> error + (string \<times> json) list" where
  "items d = (case d of JObj kvs \<Rightarrow> Inr kvs | _ \<Rightarrow> Inl AttributeError)"

text \<open>
  \<open>d.get(key, default)\<close> on a \<open>dict\<close>; on any other JSON value the attribute is missing.
\<close>

definition dict_get :: "json \<Rightarrow> string \<Rightarrow> json \<Rightarrow> error + json" where
  "dict_get d key dflt =
     (case d of
        JObj kvs \<Rightarrow> (case map_of kvs key of Some v \<Rightarrow> Inr v | None \<Rightarrow> Inr dflt)
      | _ \<Rightarrow> Inl AttributeError)"

text \<open>
  A field mapping whose values are all strings, as a JSON object.
\<close>

definition str_dict :: "(string \<times> string) list \<Rightarrow> json" where
  "str_dict m = JObj (map (\<lambda>(k, v). (k, JStr v)) m)"

section \<open>Documents\<close>

text \<open>
  The part of a DOCX document the program reaches through the document library: the
  top-level paragraphs, and the top-level tables with their rows, cells and the
  paragraphs of each cell. A paragraph is its runs of text, a run being the string
  its text reads as; \<open>p.text\<close> reads the concatenation of the runs.

  The cells of a table are objects the rows share: \<open>row.cells\<close> gives a merged cell
  once for each grid column it spans, and in each row it spans, every time the same
  object. So a table holds its cell objects by number, and a row lists the numbers of
  the cells \<open>row.cells\<close> gives, in order. \<open>cell.text\<close> reads the cell's paragraph texts
  joined by newlines.
\<close>

record para =
  style :: "string option"
  runs :: "string list"

record cell =
  cell_paragraphs :: "para list"

record row =
  cells :: "nat list"

record table =
  table_cells :: "nat \<Rightarrow> cell"
  rows :: "row list"

record document =
  paragraphs :: "para list"
  tables :: "table list"

text \<open>
  The cell objects of a table given as a list, numbered from 0. Any other number stands
  for an empty cell; the rows of a table list the numbers of its cells only.
\<close>

definition cells_of :: "cell list \<Rightarrow> nat \<Rightarrow> cell" where
  "cells_of cs i = (if i < length cs then cs ! i else \<lparr>cell_paragraphs = []\<rparr>)"

definition newline :: string where
  "newline = [CHR 0x0A]"

definition paragraph_text :: "para \<Rightarrow> string" where
  "paragraph_text p = concat (runs p)"

definition cell_text :: "cell \<Rightarrow> string" where
  "cell_text c = str_join newline (map paragraph_text (cell_paragraphs c))"

text \<open>
  Assigning a text. The library writes the text into a new run character by
  character: a tab as a tab element, a newline and a carriage return each as a line
  break, any other stretch of characters as a text element. The XML library refuses a
  text element that holds a control character (\<open>ValueError\<close>), and a line break reads
  back as a newline. So the assignment raises unless every character is a tab, a
  newline, a carriage return or no control character, and the run then reads as the
  text with each carriage return turned into a newline.
\<close>

definition xml_char :: "char \<Rightarrow> bool" where
  "xml_char c = (c = CHR 0x09 \<or> c = CHR 0x0A \<or> c = CHR 0x0D \<or> 32 \<le> (of_char c :: nat))"

definition xml_text :: "string \<Rightarrow> bool" where
  "xml_text s = list_all xml_char s"

definition read_back :: "string \<Rightarrow> string" where
  "read_back s = map (\<lambda>c. if c = CHR 0x0D then CHR 0x0A else c) s"

definition xml_error :: error where
  "xml_error = ValueError
     ''All strings must be XML compatible: Unicode or ASCII, no NULL bytes or control characters''"

text \<open>
  Assigning \<open>p.text\<close> leaves the paragraph with the one new run and keeps its style.
  Assigning \<open>cell.text\<close> removes what the cell held and leaves it with one new
  paragraph, without a style, of the one new run.
\<close>

definition set_paragraph_text :: "string \<Rightarrow> para \<Rightarrow> error + para" where
  "set_paragraph_text s p =
     (if xml_text s then Inr (p\<lparr>runs := [read_back s]\<rparr>) else Inl xml_error)"

definition set_cell_text :: "string \<Rightarrow> cell \<Rightarrow> error + cell" where
  "set_cell_text s c =
     (if xml_text s then Inr (c\<lparr>cell_paragraphs := [\<lparr>style = None, runs = [read_back s]\<rparr>]\<rparr>)
      else Inl xml_error)"

text \<open>
  An uploaded file is modelled by what the library's reader makes of it: the exception
  it raises, or the parsed content.
\<close>

type_synonym docx_file = "error + document"

section \<open>The template filler\<close>

text \<open>
  The inner function \<open>replace\<close> of \<open>fill_template_docx\<close>: the loop over
  \<open>field_values.items()\<close>, each entry applied to the text the entries before it left.
  \<open>str.replace\<close> raises \<open>TypeError\<close> on a value that is not a string.
\<close>

fun replace_loop :: "(string \<times> json) list \<Rightarrow> string \<Rightarrow> error + string" where
  "replace_loop [] s = Inr s"
| "replace_loop ((k, v) # kvs) s =
     (case v of
        JStr new \<Rightarrow> replace_loop kvs (str_replace s k new)
      | _ \<Rightarrow> Inl TypeError)"

definition replace :: "json \<Rightarrow> string \<Rightarrow> error + string" where
  "replace field_values s =
     (case items field_values of
        Inl e \<Rightarrow> Inl e
      | Inr kvs \<Rightarrow> replace_loop kvs s)"

text \<open>
  A \<open>for\<close> loop that rewrites each element of a sequence of separate objects and is left
  by the first exception.
\<close>

fun for_each :: "('a \<Rightarrow> error + 'a) \<Rightarrow> 'a list \<Rightarrow> error + 'a list" where
  "for_each f [] = Inr []"
| "for_each f (x # xs) =
     (case f x of
        Inl e \<Rightarrow> Inl e
      | Inr y \<Rightarrow> (case for_each f xs of Inl e \<Rightarrow> Inl e | Inr ys \<Rightarrow> Inr (y # ys)))"

text \<open>
  A \<open>for\<close> loop whose body changes a state, here the cell objects of a table, and is
  left by the first exception.
\<close>

fun for_each_in :: "('s \<Rightarrow> 'a \<Rightarrow> error + 's) \<Rightarrow> 'a list \<Rightarrow> 's \<Rightarrow> error + 's" where
  "for_each_in f [] st = Inr st"
| "for_each_in f (x # xs) st =
     (case f st x of
        Inl e \<Rightarrow> Inl e
      | Inr st' \<Rightarrow> for_each_in f xs st')"

text \<open>
  \<open>p.text = replace(p.text)\<close> and \<open>cell.text = replace(cell.text)\<close>, on one object.
\<close>

definition fill_paragraph :: "json \<Rightarrow> para \<Rightarrow> error + para" where
  "fill_paragraph field_values p =
     (case replace field_values (paragraph_text p) of
        Inl e \<Rightarrow> Inl e
      | Inr s \<Rightarrow> set_paragraph_text s p)"

definition fill_cell_object :: "json \<Rightarrow> cell \<Rightarrow> error + cell" where
  "fill_cell_object field_values c =
     (case replace field_values (cell_text c) of
        Inl e \<Rightarrow> Inl e
      | Inr s \<Rightarrow> set_cell_text s c)"

text \<open>
  The body of the innermost loop, on the cell objects of the table: the object the row
  lists at this place is read and assigned.
\<close>

definition fill_cell :: "json \<Rightarrow> (nat \<Rightarrow> cell) \<Rightarrow> nat \<Rightarrow> error + (nat \<Rightarrow> cell)" where
  "fill_cell field_values objs i =
     (case fill_cell_object field_values (objs i) of
        Inl e \<Rightarrow> Inl e
      | Inr c \<Rightarrow> Inr (objs(i := c)))"

definition fill_row :: "json \<Rightarrow> (nat \<Rightarrow> cell) \<Rightarrow> row \<Rightarrow> error + (nat \<Rightarrow> cell)" where
  "fill_row field_values objs r = for_each_in (fill_cell field_values) (cells r) objs"

definition fill_table :: "json \<Rightarrow> table \<Rightarrow> error + table" where
  "fill_table field_values t =
     (case for_each_in (fill_row field_values) (rows t) (table_cells t) of
        Inl e \<Rightarrow> Inl e
      | Inr objs \<Rightarrow> Inr (t\<lparr>table_cells := objs\<rparr>))"

text \<open>
  \<open>fill_template_docx\<close>: the template is read, the paragraphs are rewritten, then the
  cells of the tables; the result is the document that is saved into the buffer the
  function returns.
\<close>

definition fill_template_docx :: "docx_file \<Rightarrow> json \<Rightarrow> error + document" where
  "fill_template_docx template_file field_values =
     (case template_file of
        Inl e \<Rightarrow> Inl e
      | Inr doc \<Rightarrow>
          (case for_each (fill_paragraph field_values) (paragraphs doc) of
             Inl e \<Rightarrow> Inl e
           | Inr ps \<Rightarrow>
               (case for_each (fill_table field_values) (tables doc) of
                  Inl e \<Rightarrow> Inl e
                | Inr ts \<Rightarrow> Inr (doc\<lparr>paragraphs := ps, tables := ts\<rparr>))))"

section \<open>The text extractors\<close>

text \<open>
  A report file as the PDF library reads it: the reader raises, or gives the pages; on
  each page \<open>extract_text()\<close> raises, or gives a text, or nothing.
\<close>

type_synonym page = "error + string option"

type_synonym pdf_file = "error + page list"

text \<open>
  \<open>t or ""\<close>: the empty string for \<open>None\<close> and for the empty text.
\<close>

definition or_empty :: "string option \<Rightarrow> string" where
  "or_empty t = (case t of None \<Rightarrow> [] | Some s \<Rightarrow> (if s = [] then [] else s))"

text \<open>
  The two loops of \<open>extract_text_from_pdfs\<close>; \<open>acc\<close> is the list the source calls \<open>text\<close>,
  appended to page by page.
\<close>

fun extract_pages :: "page list \<Rightarrow> string list \<Rightarrow> error + string list" where
  "extract_pages [] acc = Inr acc"
| "extract_pages (pg # pgs) acc =
     (case pg of
        Inl e \<Rightarrow> Inl e
      | Inr t \<Rightarrow> extract_pages pgs (acc @ [or_empty t]))"

fun extract_files :: "pdf_file list \<Rightarrow> string list \<Rightarrow> error + string list" where
  "extract_files [] acc = Inr acc"
| "extract_files (pdf # pdfs) acc =
     (case pdf of
        Inl e \<Rightarrow> Inl e
      | Inr pgs \<Rightarrow>
          (case extract_pages pgs acc of
             Inl e \<Rightarrow> Inl e
           | Inr acc' \<Rightarrow> extract_files pdfs acc'))"

definition extract_text_from_pdfs :: "pdf_file list \<Rightarrow> error + string" where
  "extract_text_from_pdfs pdf_files =
     (case extract_files pdf_files [] of
        Inl e \<Rightarrow> Inl e
      | Inr acc \<Rightarrow> Inr (str_join (newline @ newline) acc))"

text \<open>
  The loops of \<open>extract_text_from_docx\<close>, each appending to \<open>lines\<close>.
\<close>

definition append_paragraphs :: "string list \<Rightarrow> para list \<Rightarrow> string list" where
  "append_paragraphs lines ps = foldl (\<lambda>ls p. ls @ [paragraph_text p]) lines ps"

definition append_row :: "(nat \<Rightarrow> cell) \<Rightarrow> string list \<Rightarrow> row \<Rightarrow> string list" where
  "append_row objs lines r =
     foldl (\<lambda>ls i. append_paragraphs ls (cell_paragraphs (objs i))) lines (cells r)"

definition append_table :: "string list \<Rightarrow> table \<Rightarrow> string list" where
  "append_table lines t = foldl (append_row (table_cells t)) lines (rows t)"

definition extract_text_from_docx :: "docx_file \<Rightarrow> error + string" where
  "extract_text_from_docx docfile =
     (case docfile of
        Inl e \<Rightarrow> Inl e
      | Inr doc \<Rightarrow>
          Inr (str_join newline
                 (foldl append_table (append_paragraphs [] (paragraphs doc)) (tables doc))))"

section \<open>The LLM gateway\<close>

record client =
  base_url :: string
  api_key :: string
  default_headers :: "(string \<times> string) list"

record message =
  role :: string
  content :: string

record request =
  model :: string
  messages :: "message list"
  response_format :: "(string \<times> string) list"
  temperature :: string

text \<open>
  What the program does not own: the process environment, the chat-completion call
  and the JSON parser. The call gives the exception met on the way to
  \<open>response.choices[0].message.content\<close>, or that content, which may be absent; the
  parser gives \<open>None\<close> for a text that is not JSON.
\<close>

record externals =
  environ :: "string \<Rightarrow> string option"
  chat_completions_create :: "client \<Rightarrow> request \<Rightarrow> error + string option"
  json_loads :: "string \<Rightarrow> json option"

text \<open>
  The body of \<open>get_llm_client\<close>. \<open>not api_key\<close> holds of \<open>None\<close> and of the empty string.
\<close>

definition new_llm_client :: "(string \<Rightarrow> string option) \<Rightarrow> error + client" where
  "new_llm_client env =
     (case env ''OPENROUTER_API_KEY'' of
        None \<Rightarrow> Inl (ValueError ''OPENROUTER_API_KEY not found in .env'')
      | Some k \<Rightarrow>
          (if k = [] then Inl (ValueError ''OPENROUTER_API_KEY not found in .env'')
           else Inr \<lparr>base_url = ''https://openrouter.ai/api/v1'',
                     api_key = k,
                     default_headers =
                       [(''Authorization'', ''Bearer '' @ k),
                        (''HTTP-Referer'', ''https://openrouter.ai''),
                        (''X-Title'', ''Insurance-GLR-Streamlit-App'')]\<rparr>))"

text \<open>
  \<open>get_llm_client\<close> as decorated: the resource cache holds the client once one has been
  made; a call that raises stores nothing.
\<close>

definition get_llm_client ::
  "(string \<Rightarrow> string option) \<Rightarrow> client option \<Rightarrow> (error + client) \<times> client option" where
  "get_llm_client env cache =
     (case cache of
        Some c \<Rightarrow> (Inr c, Some c)
      | None \<Rightarrow>
          (case new_llm_client env of
             Inl e \<Rightarrow> (Inl e, None)
           | Inr c \<Rightarrow> (Inr c, Some c)))"

definition dquote :: string where
  "dquote = [CHR 0x22]"

definition system_prompt :: string where
  "system_prompt =
     concat (map (\<lambda>l. l @ newline)
       [[],
        ''You extract structured data from insurance photo reports to fill a DOCX template.'',
        [],
        ''Return JSON:'',
        ''{'',
        ''  '' @ dquote @ ''fields'' @ dquote @ '': {'',
        ''     '' @ dquote @ ''<template_placeholder>'' @ dquote @ '': ''
           @ dquote @ ''<value>'' @ dquote @ '','',
        ''     ...'',
        ''  }'',
        ''}'',
        [],
        ''If a value is missing, return '' @ dquote @ dquote @ ''.'',
        ''Only return valid JSON. No explanation text.''])"

definition user_prompt :: "string \<Rightarrow> string \<Rightarrow> string" where
  "user_prompt template_text report_text =
     concat (map (\<lambda>l. l @ newline)
       [[],
        ''=== TEMPLATE TEXT ==='',
        template_text,
        [],
        ''=== REPORT TEXT ==='',
        report_text])"

definition completion_request :: "string \<Rightarrow> string \<Rightarrow> request" where
  "completion_request template_text report_text =
     \<lparr>model = ''mistralai/mistral-7b-instruct:free'',
      messages =
        [\<lparr>role = ''system'', content = system_prompt\<rparr>,
         \<lparr>role = ''user'', content = user_prompt template_text report_text\<rparr>],
      response_format = [(''type'', ''json_object'')],
      temperature = ''0.2''\<rparr>"

text \<open>
  \<open>json.loads(raw)\<close>: \<open>TypeError\<close> when there is no content, \<open>JSONDecodeError\<close> when the
  content is not JSON.
\<close>

definition loads :: "externals \<Rightarrow> string option \<Rightarrow> error + json" where
  "loads ext raw =
     (case raw of
        None \<Rightarrow> Inl TypeError
      | Some s \<Rightarrow> (case json_loads ext s of None \<Rightarrow> Inl JSONDecodeError | Some d \<Rightarrow> Inr d))"

definition call_llm_to_get_field_mapping ::
  "externals \<Rightarrow> client option \<Rightarrow> string \<Rightarrow> string \<Rightarrow> (error + json) \<times> client option" where
  "call_llm_to_get_field_mapping ext cache template_text report_text =
     (case get_llm_client (environ ext) cache of
        (Inl e, cache') \<Rightarrow> (Inl e, cache')
      | (Inr cl, cache') \<Rightarrow>
          (case chat_completions_create ext cl (completion_request template_text report_text) of
             Inl e \<Rightarrow> (Inl e, cache')
           | Inr raw \<Rightarrow>
               (case loads ext raw of
                  Inl e \<Rightarrow> (Inl e, cache')
                | Inr data \<Rightarrow> (dict_get data ''fields'' (JObj []), cache'))))"

section \<open>The action\<close>

text \<open>
  What a run of the action does that can be seen from outside: the widgets it shows and
  the components it calls, in order.
\<close>

datatype event =
    StError string
  | StStop
  | StSpinner string
  | StSubheader string
  | StJson json
  | StSuccess string
  | StDownloadButton string document string
  | Call_extract_text_from_pdfs
  | Call_extract_text_from_docx
  | Call_call_llm_to_get_field_mapping
  | Call_fill_template_docx

text \<open>
  How a run ends: stopped by \<open>st.stop()\<close>, left by an exception nothing catches, or at
  the end of the script.
\<close>

datatype outcome = Stopped | Uncaught error | Completed

record run =
  events :: "event list"
  outcome :: outcome
  cached_client :: "client option"

text \<open>
  The body of \<open>if st.button("Generate Filled Template")\<close>. \<open>template_file\<close> is \<open>None\<close> when
  no template is uploaded, \<open>pdf_files\<close> is the list of uploaded reports. The template's
  bytes are read once and parsed twice, by the extractor and by the filler.
\<close>

definition generate_filled_template ::
  "externals \<Rightarrow> client option \<Rightarrow> docx_file option \<Rightarrow> pdf_file list \<Rightarrow> run" where
  "generate_filled_template ext cache template_file pdf_files =
     (case template_file of
        None \<Rightarrow>
          \<lparr>events = [StError ''Please upload a DOCX template.'', StStop],
           outcome = Stopped, cached_client = cache\<rparr>
      | Some temp_bytes \<Rightarrow>
          (if pdf_files = [] then
             \<lparr>events = [StError ''Please upload at least one PDF photo report.'', StStop],
              outcome = Stopped, cached_client = cache\<rparr>
           else
             (let ev1 = [StSpinner ''Extracting PDF text...'', Call_extract_text_from_pdfs] in
              case extract_text_from_pdfs pdf_files of
                Inl e \<Rightarrow> \<lparr>events = ev1, outcome = Uncaught e, cached_client = cache\<rparr>
              | Inr reports_text \<Rightarrow>
                  (let ev2 = ev1 @ [StSpinner ''Reading template...'', Call_extract_text_from_docx] in
                   case extract_text_from_docx temp_bytes of
                     Inl e \<Rightarrow> \<lparr>events = ev2, outcome = Uncaught e, cached_client = cache\<rparr>
                   | Inr template_text \<Rightarrow>
                       (let ev3 = ev2 @ [StSpinner ''Calling LLM (DeepSeek Free)...'',
                                         Call_call_llm_to_get_field_mapping] in
                        case call_llm_to_get_field_mapping ext cache template_text reports_text of
                          (Inl e, cache') \<Rightarrow>
                            \<lparr>events = ev3, outcome = Uncaught e, cached_client = cache'\<rparr>
                        | (Inr field_mapping, cache') \<Rightarrow>
                            (let ev4 = ev3 @ [StSubheader ''Detected Field Mapping'',
                                              StJson field_mapping,
                                              StSpinner ''Generating DOCX...'',
                                              Call_fill_template_docx] in
                             case fill_template_docx temp_bytes field_mapping of
                               Inl e \<Rightarrow>
                                 \<lparr>events = ev4, outcome = Uncaught e, cached_client = cache'\<rparr>
                             | Inr result \<Rightarrow>
                                 \<lparr>events = ev4 @
                                    [StSuccess ''Completed! Download your filled template:'',
                                     StDownloadButton ''Download Filled DOCX'' result
                                       ''filled_template.docx''],
                                  outcome = Completed, cached_client = cache'\<rparr>))))))"

text \<open>
  The components a run called, and the documents it offered for download.
\<close>

definition is_component_call :: "event \<Rightarrow> bool" where
  "is_component_call ev =
     (case ev of
        Call_extract_text_from_pdfs \<Rightarrow> True
      | Call_extract_text_from_docx \<Rightarrow> True
      | Call_call_llm_to_get_field_mapping \<Rightarrow> True
      | Call_fill_template_docx \<Rightarrow> True
      | _ \<Rightarrow> False)"

definition component_calls :: "run \<Rightarrow> event list" where
  "component_calls r = filter is_component_call (events r)"

definition downloads :: "run \<Rightarrow> document list" where
  "downloads r =
     concat (map (\<lambda>ev. case ev of StDownloadButton l d n \<Rightarrow> [d] | _ \<Rightarrow> []) (events r))"

section \<open>What the specification says, in its own terms\<close>

text \<open>
  The report text blob: the page texts in upload order, then page order, a page without
  text counting as the empty string, joined by blank lines.
\<close>

definition page_text :: "string option \<Rightarrow> string" where
  "page_text t = (case t of None \<Rightarrow> [] | Some s \<Rightarrow> s)"

definition report_text_blob :: "string option list list \<Rightarrow> string" where
  "report_text_blob files = str_join (newline @ newline) (map page_text (concat files))"

text \<open>
  A report file that reads without an exception, from the texts of its pages.
\<close>

definition readable_pdf :: "string option list \<Rightarrow> pdf_file" where
  "readable_pdf pgs = Inr (map Inr pgs)"

text \<open>
  The lines of the template text blob: every paragraph's text, then the tables one
  after the other, each row by row, cell by cell as the row lists them, paragraph by
  paragraph.
\<close>

definition cell_lines :: "cell \<Rightarrow> string list" where
  "cell_lines c = map paragraph_text (cell_paragraphs c)"

definition table_lines :: "table \<Rightarrow> string list" where
  "table_lines t =
     concat (map (\<lambda>r. concat (map (\<lambda>i. cell_lines (table_cells t i)) (cells r))) (rows t))"

definition template_lines :: "document \<Rightarrow> string list" where
  "template_lines doc =
     map paragraph_text (paragraphs doc) @ concat (map table_lines (tables doc))"

text \<open>
  The text content of a document, paragraph by paragraph and cell by cell, the styles
  of the paragraphs inside the cells, and the shape of the tables: the number of cells
  of each row of each table.
\<close>

definition paragraph_texts :: "document \<Rightarrow> string list" where
  "paragraph_texts doc = map paragraph_text (paragraphs doc)"

definition cell_texts :: "document \<Rightarrow> string list list list" where
  "cell_texts doc =
     map (\<lambda>t. map (\<lambda>r. map (\<lambda>i. cell_text (table_cells t i)) (cells r)) (rows t)) (tables doc)"

definition cell_styles :: "document \<Rightarrow> string option list list list list" where
  "cell_styles doc =
     map (\<lambda>t. map (\<lambda>r. map (\<lambda>i. map style (cell_paragraphs (table_cells t i))) (cells r)) (rows t))
       (tables doc)"

definition table_grid :: "document \<Rightarrow> nat list list" where
  "table_grid doc = map (\<lambda>t. map (\<lambda>r. length (cells r)) (rows t)) (tables doc)"

text \<open>
  The cells of a table as the loops of the filler meet them, row by row, and how often
  they meet a cell: once, or once for each grid position a merged cell covers.
\<close>

definition listed_cells :: "table \<Rightarrow> nat list" where
  "listed_cells t = concat (map cells (rows t))"

definition times_listed :: "table \<Rightarrow> nat \<Rightarrow> nat" where
  "times_listed t i = count_list (listed_cells t) i"

text \<open>
  A document as the reader gives it: XML carries every character of its texts. A field
  mapping whose values the document can take.
\<close>

definition xml_para :: "para \<Rightarrow> bool" where
  "xml_para p = list_all xml_text (runs p)"

definition xml_cell :: "cell \<Rightarrow> bool" where
  "xml_cell c = list_all xml_para (cell_paragraphs c)"

definition xml_table :: "table \<Rightarrow> bool" where
  "xml_table t = list_all (\<lambda>i. xml_cell (table_cells t i)) (listed_cells t)"

definition xml_document :: "document \<Rightarrow> bool" where
  "xml_document doc = (list_all xml_para (paragraphs doc) \<and> list_all xml_table (tables doc))"

definition xml_mapping :: "(string \<times> string) list \<Rightarrow> bool" where
  "xml_mapping m = list_all (\<lambda>(k, v). xml_text v) m"

text \<open>
  A value laid before each character of a text and after the last.
\<close>

fun at_every_boundary :: "'c list \<Rightarrow> 'c list \<Rightarrow> 'c list" where
  "at_every_boundary v [] = v"
| "at_every_boundary v (c # cs) = v @ c # at_every_boundary v cs"

text \<open>
  Applying every entry of a field mapping, in iteration order, as a literal replacement
  on the text the entries before it left.
\<close>

definition substitute :: "(string \<times> string) list \<Rightarrow> string \<Rightarrow> string" where
  "substitute m s = foldl (\<lambda>t (k, v). str_replace t k v) s m"

text \<open>
  The text a paragraph or a cell reads as after one assignment of its substituted
  text.
\<close>

definition filled_text :: "(string \<times> string) list \<Rightarrow> string \<Rightarrow> string" where
  "filled_text m s = read_back (substitute m s)"

text \<open>
  The cell an assignment of its substituted text leaves.
\<close>

definition filled_cell :: "(string \<times> string) list \<Rightarrow> cell \<Rightarrow> cell" where
  "filled_cell m c =
     c\<lparr>cell_paragraphs := [\<lparr>style = None, runs = [filled_text m (cell_text c)]\<rparr>]\<rparr>"

section \<open>Facts about the string operations\<close>

lemma replace_loop_str:
  "replace_loop (map (\<lambda>(k, v). (k, JStr v)) m) s = Inr (substitute m s)"
  by (induction m arbitrary: s) (auto simp: substitute_def)

lemma replace_str_dict: "replace (str_dict m) s = Inr (substitute m s)"
  by (simp add: replace_def items_def str_dict_def replace_loop_str)

lemma substitute_snoc: "substitute (m @ [(k, v)]) s = str_replace (substitute m s) k v"
  by (simp add: substitute_def)

lemma substitute_Nil: "substitute [] s = s"
  by (simp add: substitute_def)

lemma str_replace_front:
  "str_replace ((c # k) @ rest) (c # k) v = v @ str_replace rest (c # k) v"
  by (simp add: str_replace_def)

lemma interleave_boundary: "replace_interleave v s = at_every_boundary v s"
  by (induction s) (auto simp: replace_interleave_def)

lemma length_boundary: "length (at_every_boundary v s) = length s + (length s + 1) * length v"
  by (induction s) auto

lemma boundary_neq: "v \<noteq> [] \<Longrightarrow> at_every_boundary v t \<noteq> t"
proof
  assume "v \<noteq> []" and "at_every_boundary v t = t"
  then have "length (at_every_boundary v t) = length t" by simp
  with \<open>v \<noteq> []\<close> show False by (simp add: length_boundary)
qed

lemma str_replace_empty: "str_replace s [] v = at_every_boundary v s"
  by (simp add: str_replace_def interleave_boundary)

lemma substitute_empty_key: "substitute [([], v)] = at_every_boundary v"
  by (rule ext) (simp add: substitute_def str_replace_empty)

lemma length_str_join:
  "length (str_join sep xs) = sum_list (map length xs) + (length xs - 1) * length sep"
  by (induction sep xs rule: str_join.induct) auto

text \<open>
  A replacement brings in no character but those of the text and of the new value.
\<close>

lemma set_replace_from: "set (replace_from old new s) \<subseteq> set s \<union> set new"
proof (induction old new s rule: replace_from.induct)
  case (1 old new)
  then show ?case by simp
next
  case (2 old new c cs)
  show ?case
  proof (cases "old \<noteq> [] \<and> prefix old (c # cs)")
    case True
    define rest where "rest = drop (length old) (c # cs)"
    have "set (replace_from old new rest) \<subseteq> set rest \<union> set new"
      using 2 True by (simp add: rest_def)
    moreover have "set rest \<subseteq> set (c # cs)"
      unfolding rest_def by (rule set_drop_subset)
    moreover have "replace_from old new (c # cs) = new @ replace_from old new rest"
      using True by (simp add: rest_def)
    ultimately show ?thesis
      by auto
  next
    case False
    with 2 have "set (replace_from old new cs) \<subseteq> set cs \<union> set new"
      by simp
    moreover have "replace_from old new (c # cs) = c # replace_from old new cs"
      by (simp only: replace_from.simps False if_False)
    ultimately show ?thesis
      by auto
  qed
qed

lemma set_str_replace: "set (str_replace s old new) \<subseteq> set s \<union> set new"
proof (cases "old = []")
  case True
  then show ?thesis
    by (auto simp: str_replace_def replace_interleave_def)
next
  case False
  then show ?thesis
    by (simp add: str_replace_def set_replace_from)
qed

lemma xml_text_iff: "xml_text s \<longleftrightarrow> (\<forall>c \<in> set s. xml_char c)"
  by (simp add: xml_text_def list_all_iff)

lemma xml_str_replace: "xml_text s \<Longrightarrow> xml_text new \<Longrightarrow> xml_text (str_replace s old new)"
  using set_str_replace [of s old new] by (auto simp: xml_text_iff)

lemma xml_substitute: "xml_mapping m \<Longrightarrow> xml_text s \<Longrightarrow> xml_text (substitute m s)"
proof (induction m arbitrary: s)
  case Nil
  then show ?case by (simp add: substitute_def)
next
  case (Cons kv m)
  obtain k v where kv: "kv = (k, v)" by (cases kv)
  from Cons.prems kv have "xml_text v" and m: "xml_mapping m"
    by (simp_all add: xml_mapping_def)
  with Cons.prems have "xml_text (str_replace s k v)"
    by (simp add: xml_str_replace)
  with m have "xml_text (substitute m (str_replace s k v))"
    by (rule Cons.IH)
  then show ?case
    by (simp add: substitute_def kv)
qed

lemma xml_read_back: "xml_text s \<Longrightarrow> xml_text (read_back s)"
  by (auto simp: xml_text_iff read_back_def xml_char_def)

lemma read_back_idem: "read_back (read_back s) = read_back s"
  by (simp add: read_back_def)

lemma read_back_same: "CHR 0x0D \<notin> set s \<Longrightarrow> read_back s = s"
  by (induction s) (auto simp: read_back_def)

lemma xml_filled_text: "xml_mapping m \<Longrightarrow> xml_text s \<Longrightarrow> xml_text (filled_text m s)"
  by (simp add: filled_text_def xml_read_back xml_substitute)

lemma xml_paragraph_text: "xml_para p \<Longrightarrow> xml_text (paragraph_text p)"
  by (auto simp: xml_para_def paragraph_text_def xml_text_iff list_all_iff)

lemma xml_str_join:
  "list_all xml_text xs \<Longrightarrow> xml_text sep \<Longrightarrow> xml_text (str_join sep xs)"
  by (induction sep xs rule: str_join.induct) (auto simp: xml_text_iff)

lemma xml_newline: "xml_text newline"
  by (simp add: xml_text_def newline_def xml_char_def)

lemma xml_cell_text: "xml_cell c \<Longrightarrow> xml_text (cell_text c)"
proof -
  assume "xml_cell c"
  then have "list_all xml_text (map paragraph_text (cell_paragraphs c))"
    by (auto simp: xml_cell_def list_all_iff xml_paragraph_text)
  then show ?thesis
    by (simp add: cell_text_def xml_str_join xml_newline)
qed

section \<open>Facts about the loops\<close>

lemma for_each_total:
  "(\<And>x. x \<in> set xs \<Longrightarrow> f x = Inr (g x)) \<Longrightarrow> for_each f xs = Inr (map g xs)"
  by (induction xs) auto

lemma for_each_all2:
  "for_each f xs = Inr ys \<Longrightarrow> list_all2 (\<lambda>x y. f x = Inr y) xs ys"
  by (induction xs arbitrary: ys) (auto split: sum.splits)

lemma for_each_length: "for_each f xs = Inr ys \<Longrightarrow> length ys = length xs"
  by (induction xs arbitrary: ys) (auto split: sum.splits)

lemma all2_map_eq: "list_all2 (\<lambda>x y. g y = g x) xs ys \<Longrightarrow> map g ys = map g xs"
  by (induction rule: list_all2_induct) auto

lemma for_each_in_append:
  "for_each_in f (xs @ ys) st =
     (case for_each_in f xs st of Inl e \<Rightarrow> Inl e | Inr st' \<Rightarrow> for_each_in f ys st')"
  by (induction xs arbitrary: st) (auto split: sum.splits)

lemma for_each_in_rows:
  "for_each_in (\<lambda>st r. for_each_in f (cells r) st) rs st = for_each_in f (concat (map cells rs)) st"
  by (induction rs arbitrary: st) (auto simp: for_each_in_append split: sum.splits)

text \<open>
  A loop over listed objects whose body succeeds on every object that is in order, and
  leaves it in order.
\<close>

lemma for_each_in_objects:
  assumes step: "\<And>c. ok c \<Longrightarrow> step c = Inr (g c)"
    and keep: "\<And>c. ok c \<Longrightarrow> ok (g c)"
  shows "\<forall>i \<in> set ids. ok (objs i) \<Longrightarrow>
         for_each_in (\<lambda>st i. case step (st i) of Inl e \<Rightarrow> Inl e | Inr c \<Rightarrow> Inr (st(i := c))) ids objs
           = Inr (foldl (\<lambda>st i. st(i := g (st i))) objs ids)"
proof (induction ids arbitrary: objs)
  case Nil
  show ?case
    by (simp only: for_each_in.simps foldl_Nil)
next
  case (Cons i ids)
  from Cons.prems have oki: "ok (objs i)"
    by simp
  have "\<forall>j \<in> set ids. ok ((objs(i := g (objs i))) j)"
    using Cons.prems keep [OF oki] by auto
  then have "for_each_in (\<lambda>st i. case step (st i) of Inl e \<Rightarrow> Inl e | Inr c \<Rightarrow> Inr (st(i := c)))
               ids (objs(i := g (objs i)))
             = Inr (foldl (\<lambda>st i. st(i := g (st i))) (objs(i := g (objs i))) ids)"
    by (rule Cons.IH)
  then show ?case
    by (simp only: for_each_in.simps step [OF oki] sum.case foldl_Cons)
qed

lemma foldl_objects:
  "foldl (\<lambda>st i. st(i := g (st i))) objs ids j = (g ^^ count_list ids j) (objs j)"
proof (induction ids arbitrary: objs)
  case Nil
  show ?case
    by (simp only: foldl_Nil count_list.simps funpow_0)
next
  case (Cons i ids)
  have "foldl (\<lambda>st i. st(i := g (st i))) objs (i # ids) j
          = foldl (\<lambda>st i. st(i := g (st i))) (objs(i := g (objs i))) ids j"
    by (simp only: foldl_Cons)
  also have "\<dots> = (g ^^ count_list ids j) ((objs(i := g (objs i))) j)"
    by (rule Cons.IH)
  also have "\<dots> = (g ^^ count_list (i # ids) j) (objs j)"
  proof (cases "j = i")
    case True
    then show ?thesis
      by (simp add: funpow_swap1)
  next
    case False
    then show ?thesis
      by simp
  qed
  finally show ?case .
qed

lemma funpow_idem:
  assumes "\<And>x. g (g x) = g x"
  shows "(g ^^ Suc n) x = g x"
  by (induction n) (simp_all add: assms)

lemma count_listed: "j \<in> set ids \<Longrightarrow> \<exists>n. count_list ids j = Suc n"
  by (induction ids) auto

lemma count_distinct: "distinct ids \<Longrightarrow> j \<in> set ids \<Longrightarrow> count_list ids j = 1"
  by (induction ids) auto

section \<open>Facts about the extractors\<close>

lemma extract_pages_ok:
  "extract_pages (map Inr pgs) acc = Inr (acc @ map or_empty pgs)"
  by (induction pgs arbitrary: acc) auto

lemma extract_files_ok:
  "extract_files (map readable_pdf files) acc = Inr (acc @ map or_empty (concat files))"
  by (induction files arbitrary: acc) (auto simp: readable_pdf_def extract_pages_ok)

lemma or_empty_page_text: "or_empty t = page_text t"
  by (auto simp: or_empty_def page_text_def split: option.splits)

lemma append_paragraphs_eq: "append_paragraphs lines ps = lines @ map paragraph_text ps"
  by (induction ps arbitrary: lines) (auto simp: append_paragraphs_def)

lemma append_row_eq:
  "append_row objs lines r = lines @ concat (map (\<lambda>i. cell_lines (objs i)) (cells r))"
proof -
  have "foldl (\<lambda>ls i. append_paragraphs ls (cell_paragraphs (objs i))) lines ids
        = lines @ concat (map (\<lambda>i. cell_lines (objs i)) ids)" for ids
    by (induction ids arbitrary: lines) (auto simp: append_paragraphs_eq cell_lines_def)
  then show ?thesis by (simp add: append_row_def)
qed

lemma append_table_eq: "append_table lines t = lines @ table_lines t"
proof -
  have "foldl (append_row objs) lines rs
        = lines @ concat (map (\<lambda>r. concat (map (\<lambda>i. cell_lines (objs i)) (cells r))) rs)"
    for rs objs
    by (induction rs arbitrary: lines) (auto simp: append_row_eq)
  then show ?thesis by (simp add: append_table_def table_lines_def)
qed

lemma foldl_append_table: "foldl append_table lines ts = lines @ concat (map table_lines ts)"
  by (induction ts arbitrary: lines) (auto simp: append_table_eq)

lemma docx_lines: "extract_text_from_docx (Inr doc) = Inr (str_join newline (template_lines doc))"
  by (simp add: extract_text_from_docx_def foldl_append_table append_paragraphs_eq template_lines_def)

section \<open>Facts about the filler\<close>

lemma fill_paragraph_str:
  assumes "xml_mapping m" and "xml_para p"
  shows "fill_paragraph (str_dict m) p = Inr (p\<lparr>runs := [filled_text m (paragraph_text p)]\<rparr>)"
proof -
  from assms have "xml_text (substitute m (paragraph_text p))"
    by (simp add: xml_substitute xml_paragraph_text)
  then show ?thesis
    by (simp add: fill_paragraph_def replace_str_dict set_paragraph_text_def filled_text_def)
qed

lemma fill_cell_object_str:
  assumes "xml_mapping m" and "xml_cell c"
  shows "fill_cell_object (str_dict m) c = Inr (filled_cell m c)"
proof -
  from assms have "xml_text (substitute m (cell_text c))"
    by (simp add: xml_substitute xml_cell_text)
  then show ?thesis
    by (simp add: fill_cell_object_def replace_str_dict set_cell_text_def filled_cell_def
          filled_text_def)
qed

lemma xml_filled_cell:
  assumes "xml_mapping m" and "xml_cell c"
  shows "xml_cell (filled_cell m c)"
proof -
  from assms have "xml_text (filled_text m (cell_text c))"
    by (simp add: xml_filled_text xml_cell_text)
  then show ?thesis
    by (simp add: xml_cell_def filled_cell_def xml_para_def)
qed

lemma cell_text_filled_cell: "cell_text (filled_cell m c) = filled_text m (cell_text c)"
  by (simp add: cell_text_def filled_cell_def paragraph_text_def)

lemma cell_text_funpow: "cell_text ((filled_cell m ^^ n) c) = (filled_text m ^^ n) (cell_text c)"
  by (induction n) (simp_all add: cell_text_filled_cell)

lemma fill_table_str:
  assumes m: "xml_mapping m" and t: "xml_table t"
  shows "fill_table (str_dict m) t =
           Inr (t\<lparr>table_cells := foldl (\<lambda>st i. st(i := filled_cell m (st i)))
                                    (table_cells t) (listed_cells t)\<rparr>)"
proof -
  have "for_each_in (fill_row (str_dict m)) (rows t) (table_cells t)
          = for_each_in (fill_cell (str_dict m)) (listed_cells t) (table_cells t)"
    unfolding fill_row_def [abs_def] listed_cells_def by (rule for_each_in_rows)
  also have "\<dots> = Inr (foldl (\<lambda>st i. st(i := filled_cell m (st i)))
                         (table_cells t) (listed_cells t))"
    unfolding fill_cell_def [abs_def]
  proof (rule for_each_in_objects [where ok = xml_cell])
    show "fill_cell_object (str_dict m) c = Inr (filled_cell m c)" if "xml_cell c" for c
      using m that by (rule fill_cell_object_str)
    show "xml_cell (filled_cell m c)" if "xml_cell c" for c
      using m that by (rule xml_filled_cell)
    show "\<forall>i \<in> set (listed_cells t). xml_cell (table_cells t i)"
      using t by (simp add: xml_table_def list_all_iff)
  qed
  finally show ?thesis
    by (simp add: fill_table_def)
qed

lemma fill_template_str:
  assumes m: "xml_mapping m" and d: "xml_document doc"
  shows "fill_template_docx (Inr doc) (str_dict m) =
           Inr (doc\<lparr>paragraphs :=
                      map (\<lambda>p. p\<lparr>runs := [filled_text m (paragraph_text p)]\<rparr>) (paragraphs doc),
                    tables :=
                      map (\<lambda>t. t\<lparr>table_cells := foldl (\<lambda>st i. st(i := filled_cell m (st i)))
                                                    (table_cells t) (listed_cells t)\<rparr>)
                        (tables doc)\<rparr>)"
proof -
  have "for_each (fill_paragraph (str_dict m)) (paragraphs doc)
          = Inr (map (\<lambda>p. p\<lparr>runs := [filled_text m (paragraph_text p)]\<rparr>) (paragraphs doc))"
  proof (rule for_each_total)
    fix p assume "p \<in> set (paragraphs doc)"
    with d have "xml_para p"
      by (simp add: xml_document_def list_all_iff)
    with m show "fill_paragraph (str_dict m) p = Inr (p\<lparr>runs := [filled_text m (paragraph_text p)]\<rparr>)"
      by (rule fill_paragraph_str)
  qed
  moreover have "for_each (fill_table (str_dict m)) (tables doc)
          = Inr (map (\<lambda>t. t\<lparr>table_cells := foldl (\<lambda>st i. st(i := filled_cell m (st i)))
                                                    (table_cells t) (listed_cells t)\<rparr>)
                        (tables doc))"
  proof (rule for_each_total)
    fix t assume "t \<in> set (tables doc)"
    with d have "xml_table t"
      by (simp add: xml_document_def list_all_iff)
    with m show "fill_table (str_dict m) t =
           Inr (t\<lparr>table_cells := foldl (\<lambda>st i. st(i := filled_cell m (st i)))
                                    (table_cells t) (listed_cells t)\<rparr>)"
      by (rule fill_table_str)
  qed
  ultimately show ?thesis
    by (simp add: fill_template_docx_def)
qed

text \<open>
  The texts after filling: a paragraph's text is filled once, a cell's text once for
  each time the table lists the cell.
\<close>

lemma filled_texts:
  assumes m: "xml_mapping m" and d: "xml_document doc"
    and f: "fill_template_docx (Inr doc) (str_dict m) = Inr doc'"
  shows "paragraph_texts doc' = map (filled_text m) (paragraph_texts doc)"
    and "cell_texts doc' =
           map (\<lambda>t. map (\<lambda>r. map (\<lambda>i. (filled_text m ^^ times_listed t i) (cell_text (table_cells t i)))
                               (cells r)) (rows t)) (tables doc)"
proof -
  note eq = f [unfolded fill_template_str [OF m d], simplified, symmetric]
  show "paragraph_texts doc' = map (filled_text m) (paragraph_texts doc)"
    by (simp add: eq paragraph_texts_def paragraph_text_def comp_def)
  show "cell_texts doc' =
           map (\<lambda>t. map (\<lambda>r. map (\<lambda>i. (filled_text m ^^ times_listed t i) (cell_text (table_cells t i)))
                               (cells r)) (rows t)) (tables doc)"
    by (simp add: eq cell_texts_def comp_def foldl_objects cell_text_funpow times_listed_def)
qed

section \<open>Facts about the structure\<close>

lemma fill_paragraph_style: "fill_paragraph fv p = Inr p' \<Longrightarrow> style p' = style p"
  by (auto simp: fill_paragraph_def set_paragraph_text_def split: sum.splits if_splits)

lemma fill_table_rows: "fill_table fv t = Inr t' \<Longrightarrow> rows t' = rows t"
  by (auto simp: fill_table_def split: sum.splits)

lemma fill_structure:
  assumes "fill_template_docx (Inr doc) fv = Inr doc'"
  shows "length (paragraphs doc') = length (paragraphs doc)"
    and "map style (paragraphs doc') = map style (paragraphs doc)"
    and "table_grid doc' = table_grid doc"
proof -
  from assms have ps: "for_each (fill_paragraph fv) (paragraphs doc) = Inr (paragraphs doc')"
    and ts: "for_each (fill_table fv) (tables doc) = Inr (tables doc')"
    by (auto simp: fill_template_docx_def split: sum.splits)
  from ps show "length (paragraphs doc') = length (paragraphs doc)"
    by (rule for_each_length)
  from ps have "list_all2 (\<lambda>p p'. fill_paragraph fv p = Inr p') (paragraphs doc) (paragraphs doc')"
    by (rule for_each_all2)
  then have "list_all2 (\<lambda>p p'. style p' = style p) (paragraphs doc) (paragraphs doc')"
    by (rule list_all2_mono) (rule fill_paragraph_style)
  then show "map style (paragraphs doc') = map style (paragraphs doc)"
    by (rule all2_map_eq)
  from ts have "list_all2 (\<lambda>t t'. fill_table fv t = Inr t') (tables doc) (tables doc')"
    by (rule for_each_all2)
  then have "list_all2 (\<lambda>t t'. rows t' = rows t) (tables doc) (tables doc')"
    by (rule list_all2_mono) (rule fill_table_rows)
  then have "list_all2 (\<lambda>t t'. map (\<lambda>r. length (cells r)) (rows t') = map (\<lambda>r. length (cells r)) (rows t))
               (tables doc) (tables doc')"
    by (rule list_all2_mono) simp
  then show "table_grid doc' = table_grid doc"
    unfolding table_grid_def by (rule all2_map_eq)
qed

section \<open>The claims\<close>

subsection \<open>C1: substitution, key by key\<close>

text \<open>
  C1, as stated: for the mapping \<open>{"A": "B", "B": "C"}\<close> and the text \<open>"A"\<close> the
  substitution returns \<open>"B"\<close>, not \<open>"C"\<close>. The loop takes the entries in the order
  of the mapping: the entry for \<open>"A"\<close> turns the text into \<open>"B"\<close>, and the entry for \<open>"B"\<close>,
  applied to that text, turns it into \<open>"C"\<close>.
\<close>

theorem replace_rescans_later_keys_counterexample:
  "replace (JObj [(''A'', JStr ''B''), (''B'', JStr ''C'')]) ''A'' = Inr ''C'' \<and>
   replace (JObj [(''A'', JStr ''B''), (''B'', JStr ''C'')]) ''A'' \<noteq> Inr ''B''"
  by (simp add: replace_def items_def str_replace_def)

text \<open>
  C1, amended: the substitution applies the entries of the mapping one after the other,
  in iteration order, each as one pass of literal replacement over the text the
  entries before it left. The value an entry lays down is skipped by that entry's own
  pass, which goes on behind it, and is scanned by the entries iterated later. For
  \<open>{"A": "B", "B": "C"}\<close> and the text \<open>"A"\<close> the result is \<open>"C"\<close>; with the entries in the
  other order, \<open>{"B": "C", "A": "B"}\<close>, it is \<open>"B"\<close>.
\<close>

theorem replace_in_iteration_order:
  "replace (str_dict [(''A'', ''B''), (''B'', ''C'')]) ''A'' = Inr ''C'' \<and>
   replace (str_dict [(''B'', ''C''), (''A'', ''B'')]) ''A'' = Inr ''B'' \<and>
   replace (str_dict m) s = Inr (substitute m s) \<and>
   replace (str_dict (m @ [(k, v)])) s = Inr (str_replace (substitute m s) k v) \<and>
   str_replace ((c # old) @ rest) (c # old) new = new @ str_replace rest (c # old) new"
proof -
  have "replace (str_dict [(''A'', ''B''), (''B'', ''C'')]) ''A'' = Inr ''C''"
    by (simp add: replace_str_dict substitute_def str_replace_def)
  moreover have "replace (str_dict [(''B'', ''C''), (''A'', ''B'')]) ''A'' = Inr ''B''"
    by (simp add: replace_str_dict substitute_def str_replace_def)
  moreover have "replace (str_dict (m @ [(k, v)])) s = Inr (str_replace (substitute m s) k v)"
    by (simp only: replace_str_dict substitute_snoc)
  ultimately show ?thesis
    by (simp only: replace_str_dict str_replace_front simp_thms)
qed

text \<open>
  An instance: \<open>{"A": "AA", "B": "A"}\<close> on \<open>"AB"\<close> gives \<open>"AAA"\<close>. The \<open>"AA"\<close> written for
  \<open>"A"\<close> is not replaced again by the pass that wrote it, and the \<open>"A"\<close> written for \<open>"B"\<close>
  comes after the entry for \<open>"A"\<close> has run.
\<close>

theorem replace_in_iteration_order_witness:
  "replace (str_dict ([(''A'', ''AA'')] @ [(''B'', ''A'')])) ''AB'' = Inr ''AAA'' \<and>
   str_replace ((CHR ''A'' # []) @ ''B'') (CHR ''A'' # []) ''AA'' = ''AAB''"
  using replace_in_iteration_order
    [of "[(''A'', ''AA'')]" "''AB''" "''B''" "''A''" "CHR ''A''" "[]" "''B''" "''AA''"]
  by (simp add: substitute_def str_replace_def)

subsection \<open>C2: the report text\<close>

text \<open>
  C2: for every list of report files that the PDF library reads, \<open>extract_text_from_pdfs\<close>
  returns the texts of the pages, in upload order and then page order, joined by blank
  lines; a page without text stands as the empty string, so that the result holds one
  separator less than there are pages, each two characters long.
\<close>

theorem extract_text_from_pdfs_blob:
  "extract_text_from_pdfs (map readable_pdf files) = Inr (report_text_blob files) \<and>
   length (report_text_blob files) =
     sum_list (map (\<lambda>t. length (page_text t)) (concat files)) + (length (concat files) - 1) * 2"
proof -
  have "or_empty = page_text"
    by (rule ext) (rule or_empty_page_text)
  then show ?thesis
    by (simp add: extract_text_from_pdfs_def extract_files_ok report_text_blob_def
          length_str_join newline_def comp_def)
qed

text \<open>
  An instance: three files of two, one and one pages, two of the pages without text;
  the three separators stand between \<open>a\<close> and \<open>b\<close>.
\<close>

theorem extract_text_from_pdfs_blob_witness:
  "extract_text_from_pdfs
     [Inr [Inr (Some ''a''), Inr None], Inr [Inr (Some '''')], Inr [Inr (Some ''b'')]]
     = Inr (''a'' @ newline @ newline @ newline @ newline @ newline @ newline @ ''b'')"
  using extract_text_from_pdfs_blob [of "[[Some ''a'', None], [Some ''''], [Some ''b'']]"]
  by (simp add: readable_pdf_def report_text_blob_def page_text_def)

subsection \<open>C3: the template text\<close>

text \<open>
  C3: for every template document, \<open>extract_text_from_docx\<close> gives the text of every
  paragraph in document order, then, table by table, row by row, cell by cell as the
  row lists them, and paragraph by paragraph, the texts inside the tables, all joined
  by single newlines.
\<close>

theorem extract_text_from_docx_order:
  "extract_text_from_docx (Inr doc) =
     Inr (str_join newline
            (map paragraph_text (paragraphs doc) @
             concat (map (\<lambda>t. concat (map (\<lambda>r. concat (map (\<lambda>i. map paragraph_text
                                                                (cell_paragraphs (table_cells t i)))
                                                     (cells r))) (rows t))) (tables doc))))"
  by (simp add: docx_lines template_lines_def table_lines_def [abs_def] cell_lines_def [abs_def])

text \<open>
  An instance: two paragraphs, the second empty, and a table of two rows; the first
  cell holds two paragraphs.
\<close>

theorem extract_text_from_docx_order_witness:
  "extract_text_from_docx
     (Inr \<lparr>paragraphs = [\<lparr>style = None, runs = [''a'', ''b'']\<rparr>, \<lparr>style = None, runs = []\<rparr>],
           tables = [\<lparr>table_cells =
                         cells_of [\<lparr>cell_paragraphs = [\<lparr>style = None, runs = [''c'']\<rparr>,
                                                        \<lparr>style = None, runs = [''d'']\<rparr>]\<rparr>,
                                    \<lparr>cell_paragraphs = [\<lparr>style = None, runs = [''e'']\<rparr>]\<rparr>,
                                    \<lparr>cell_paragraphs = [\<lparr>style = None, runs = [''f'']\<rparr>]\<rparr>],
                      rows = [\<lparr>cells = [0, 1]\<rparr>, \<lparr>cells = [2]\<rparr>]\<rparr>]\<rparr>)
   = Inr (''ab'' @ newline @ newline @ ''c'' @ newline @ ''d'' @ newline @ ''e'' @ newline @ ''f'')"
  using extract_text_from_docx_order
    [of "\<lparr>paragraphs = [\<lparr>style = None, runs = [''a'', ''b'']\<rparr>, \<lparr>style = None, runs = []\<rparr>],
           tables = [\<lparr>table_cells =
                         cells_of [\<lparr>cell_paragraphs = [\<lparr>style = None, runs = [''c'']\<rparr>,
                                                        \<lparr>style = None, runs = [''d'']\<rparr>]\<rparr>,
                                    \<lparr>cell_paragraphs = [\<lparr>style = None, runs = [''e'']\<rparr>]\<rparr>,
                                    \<lparr>cell_paragraphs = [\<lparr>style = None, runs = [''f'']\<rparr>]\<rparr>],
                      rows = [\<lparr>cells = [0, 1]\<rparr>, \<lparr>cells = [2]\<rparr>]\<rparr>]\<rparr>"]
  by (simp add: paragraph_text_def cells_of_def)

subsection \<open>C4: the empty mapping\<close>

text \<open>
  C4, as stated: filling with the empty mapping leaves every text as it was. The filler
  assigns each text to its paragraph again, and the document reads a carriage return
  back as a newline: \<open>"a\rb"\<close> becomes \<open>"a\nb"\<close>.
\<close>

theorem empty_mapping_carriage_return_counterexample:
  "fill_template_docx
     (Inr \<lparr>paragraphs = [\<lparr>style = None, runs = [[CHR ''a'', CHR 0x0D, CHR ''b'']]\<rparr>], tables = []\<rparr>)
     (JObj [])
   = Inr \<lparr>paragraphs = [\<lparr>style = None, runs = [[CHR ''a'', CHR 0x0A, CHR ''b'']]\<rparr>], tables = []\<rparr> \<and>
   paragraph_texts
     \<lparr>paragraphs = [\<lparr>style = None, runs = [[CHR ''a'', CHR 0x0D, CHR ''b'']]\<rparr>], tables = []\<rparr>
   = [[CHR ''a'', CHR 0x0D, CHR ''b'']] \<and>
   paragraph_texts
     \<lparr>paragraphs = [\<lparr>style = None, runs = [[CHR ''a'', CHR 0x0A, CHR ''b'']]\<rparr>], tables = []\<rparr>
   = [[CHR ''a'', CHR 0x0A, CHR ''b'']]"
  by (simp add: fill_template_docx_def fill_paragraph_def replace_def items_def
        set_paragraph_text_def paragraph_text_def paragraph_texts_def xml_text_def xml_char_def
        read_back_def)

lemma filled_text_Nil: "filled_text [] = read_back"
  by (rule ext) (simp add: filled_text_def substitute_Nil)

lemma read_back_funpow: "(read_back ^^ Suc n) s = read_back s"
  by (rule funpow_idem) (rule read_back_idem)

lemma read_back_texts:
  "\<forall>s \<in> set xs. CHR 0x0D \<notin> set s \<Longrightarrow> map read_back xs = xs"
  by (rule map_idI) (simp add: read_back_same)

lemma read_back_cell_texts:
  assumes "\<forall>t \<in> set xsss. \<forall>r \<in> set t. \<forall>s \<in> set r. CHR 0x0D \<notin> set s"
  shows "map (map (map read_back)) xsss = xsss"
proof (rule map_idI)
  fix t assume t: "t \<in> set xsss"
  show "map (map read_back) t = t"
  proof (rule map_idI)
    fix r assume "r \<in> set t"
    with assms t have "\<forall>s \<in> set r. CHR 0x0D \<notin> set s"
      by blast
    then show "map read_back r = r"
      by (rule read_back_texts)
  qed
qed

text \<open>
  C4, amended: for every template document, filling with the empty mapping gives a
  document whose paragraphs and table cells read as those of the template did, except
  that each carriage return in a text has become a newline; where the texts of the
  template hold no carriage return, the texts of the output are identical to them.
  The premise holds of every document the reader gives: XML carries the characters of
  its texts.
\<close>

theorem fill_empty_mapping_reads_back:
  assumes "xml_document doc"
  shows "\<exists>doc'. fill_template_docx (Inr doc) (JObj []) = Inr doc' \<and>
           paragraph_texts doc' = map read_back (paragraph_texts doc) \<and>
           cell_texts doc' = map (map (map read_back)) (cell_texts doc) \<and>
           ((\<forall>s \<in> set (paragraph_texts doc). CHR 0x0D \<notin> set s) \<longrightarrow>
              paragraph_texts doc' = paragraph_texts doc) \<and>
           ((\<forall>t \<in> set (cell_texts doc). \<forall>r \<in> set t. \<forall>s \<in> set r. CHR 0x0D \<notin> set s) \<longrightarrow>
              cell_texts doc' = cell_texts doc)"
proof -
  have e: "JObj [] = str_dict []"
    by (simp add: str_dict_def)
  have m: "xml_mapping []"
    by (simp add: xml_mapping_def)
  obtain doc' where d: "fill_template_docx (Inr doc) (str_dict []) = Inr doc'"
    using fill_template_str [OF m assms] by simp
  have ps: "paragraph_texts doc' = map read_back (paragraph_texts doc)"
    using filled_texts(1) [OF m assms d] by (simp add: filled_text_Nil)
  have "cell_texts doc' =
          map (\<lambda>t. map (\<lambda>r. map (\<lambda>i. (read_back ^^ times_listed t i) (cell_text (table_cells t i)))
                              (cells r)) (rows t)) (tables doc)"
    using filled_texts(2) [OF m assms d] by (simp add: filled_text_Nil)
  also have "\<dots> = map (\<lambda>t. map (\<lambda>r. map (\<lambda>i. read_back (cell_text (table_cells t i)))
                              (cells r)) (rows t)) (tables doc)"
  proof (intro map_cong refl)
    fix t :: table and r :: row and i :: nat
    assume "r \<in> set (rows t)" and "i \<in> set (cells r)"
    then have "i \<in> set (listed_cells t)"
      by (auto simp: listed_cells_def)
    then obtain n where "times_listed t i = Suc n"
      using count_listed [of i "listed_cells t"] by (auto simp: times_listed_def)
    then show "(read_back ^^ times_listed t i) (cell_text (table_cells t i))
                 = read_back (cell_text (table_cells t i))"
      by (simp only: read_back_funpow)
  qed
  also have "\<dots> = map (map (map read_back)) (cell_texts doc)"
    by (simp add: cell_texts_def comp_def)
  finally have cs: "cell_texts doc' = map (map (map read_back)) (cell_texts doc)" .
  have "paragraph_texts doc' = paragraph_texts doc"
    if "\<forall>s \<in> set (paragraph_texts doc). CHR 0x0D \<notin> set s"
    unfolding ps using that by (rule read_back_texts)
  moreover have "cell_texts doc' = cell_texts doc"
    if "\<forall>t \<in> set (cell_texts doc). \<forall>r \<in> set t. \<forall>s \<in> set r. CHR 0x0D \<notin> set s"
    unfolding cs using that by (rule read_back_cell_texts)
  ultimately have "fill_template_docx (Inr doc) (JObj []) = Inr doc' \<and>
           paragraph_texts doc' = map read_back (paragraph_texts doc) \<and>
           cell_texts doc' = map (map (map read_back)) (cell_texts doc) \<and>
           ((\<forall>s \<in> set (paragraph_texts doc). CHR 0x0D \<notin> set s) \<longrightarrow>
              paragraph_texts doc' = paragraph_texts doc) \<and>
           ((\<forall>t \<in> set (cell_texts doc). \<forall>r \<in> set t. \<forall>s \<in> set r. CHR 0x0D \<notin> set s) \<longrightarrow>
              cell_texts doc' = cell_texts doc)"
    using d ps cs unfolding e by (intro conjI impI)
  then show ?thesis ..
qed

text \<open>
  An instance: a paragraph of two runs, one with a carriage return, and a merged cell
  of two paragraphs that its row lists twice.
\<close>

theorem fill_empty_mapping_reads_back_witness:
  "\<exists>doc'. fill_template_docx
            (Inr \<lparr>paragraphs = [\<lparr>style = Some ''Title'', runs = [''{{NA'', ''ME}}'']\<rparr>,
                                \<lparr>style = None, runs = [[CHR ''a'', CHR 0x0D, CHR ''b'']]\<rparr>],
                  tables = [\<lparr>table_cells =
                                cells_of [\<lparr>cell_paragraphs = [\<lparr>style = None, runs = [''c'']\<rparr>,
                                                             \<lparr>style = None, runs = [''d'']\<rparr>]\<rparr>],
                             rows = [\<lparr>cells = [0, 0]\<rparr>]\<rparr>]\<rparr>)
            (JObj []) = Inr doc' \<and>
          paragraph_texts doc' = [''{{NAME}}'', [CHR ''a'', CHR 0x0A, CHR ''b'']] \<and>
          cell_texts doc' = [[[[CHR ''c'', CHR 0x0A, CHR ''d''], [CHR ''c'', CHR 0x0A, CHR ''d'']]]]"
  using fill_empty_mapping_reads_back
    [of "\<lparr>paragraphs = [\<lparr>style = Some ''Title'', runs = [''{{NA'', ''ME}}'']\<rparr>,
                        \<lparr>style = None, runs = [[CHR ''a'', CHR 0x0D, CHR ''b'']]\<rparr>],
          tables = [\<lparr>table_cells =
                        cells_of [\<lparr>cell_paragraphs = [\<lparr>style = None, runs = [''c'']\<rparr>,
                                                     \<lparr>style = None, runs = [''d'']\<rparr>]\<rparr>],
                     rows = [\<lparr>cells = [0, 0]\<rparr>]\<rparr>]\<rparr>"]
  by (simp add: xml_document_def xml_table_def xml_cell_def xml_para_def xml_text_def xml_char_def
        listed_cells_def paragraph_texts_def cell_texts_def paragraph_text_def cell_text_def
        read_back_def newline_def cells_of_def)

subsection \<open>C5: the fields of the response\<close>

lemma call_llm_parsed:
  assumes "get_llm_client (environ ext) cache = (Inr cl, cache')"
    and "chat_completions_create ext cl (completion_request template_text report_text) = Inr raw"
  shows "call_llm_to_get_field_mapping ext cache template_text report_text =
           (case loads ext raw of
              Inl e \<Rightarrow> (Inl e, cache')
            | Inr data \<Rightarrow> (dict_get data ''fields'' (JObj []), cache'))"
  using assms by (simp add: call_llm_to_get_field_mapping_def)

lemma map_of_absent: "key \<notin> fst ` set kvs \<Longrightarrow> map_of kvs key = None"
  by (simp add: map_of_eq_None_iff)

text \<open>
  C5: when the content of the response parses to a JSON object, that is, to a \<open>dict\<close>,
  whose keys are distinct, \<open>call_llm_to_get_field_mapping\<close> returns the value the object
  holds under \<open>"fields"\<close>, and the empty mapping when the object has no such key. The
  first two premises say that there is a response: a client was made or found in the
  cache, and the call returned a content.
\<close>

theorem call_llm_returns_fields:
  assumes "get_llm_client (environ ext) cache = (Inr cl, cache')"
    and "chat_completions_create ext cl (completion_request template_text report_text)
           = Inr (Some raw)"
    and "json_loads ext raw = Some (JObj kvs)"
    and "distinct (map fst kvs)"
  shows "((''fields'', v) \<in> set kvs \<longrightarrow>
            call_llm_to_get_field_mapping ext cache template_text report_text = (Inr v, cache')) \<and>
         (''fields'' \<notin> fst ` set kvs \<longrightarrow>
            call_llm_to_get_field_mapping ext cache template_text report_text
              = (Inr (JObj []), cache'))"
proof -
  have call: "call_llm_to_get_field_mapping ext cache template_text report_text =
                (dict_get (JObj kvs) ''fields'' (JObj []), cache')"
    using assms(1-3) by (simp add: call_llm_parsed loads_def)
  show ?thesis
  proof (intro conjI impI)
    assume "(''fields'', v) \<in> set kvs"
    with assms(4) have "map_of kvs ''fields'' = Some v"
      by simp
    then show "call_llm_to_get_field_mapping ext cache template_text report_text = (Inr v, cache')"
      by (simp add: call dict_get_def)
  next
    assume "''fields'' \<notin> fst ` set kvs"
    then have "map_of kvs ''fields'' = None"
      by (rule map_of_absent)
    then show "call_llm_to_get_field_mapping ext cache template_text report_text
                 = (Inr (JObj []), cache')"
      by (simp add: call dict_get_def)
  qed
qed

text \<open>
  Two instances: a response with \<open>"fields"\<close>, and a JSON object without it.
\<close>

theorem call_llm_returns_fields_witness:
  "call_llm_to_get_field_mapping
     \<lparr>environ = [''OPENROUTER_API_KEY'' \<mapsto> ''sk-or-1''],
      chat_completions_create = (\<lambda>cl rq. Inr (Some ''{\"fields\": {\"{{NAME}}\": \"Jane Doe\"}}'')),
      json_loads = (\<lambda>s. if s = ''{\"fields\": {\"{{NAME}}\": \"Jane Doe\"}}''
                         then Some (JObj [(''fields'', JObj [(''{{NAME}}'', JStr ''Jane Doe'')])])
                         else None)\<rparr>
     None ''{{NAME}}'' ''Insured: Jane Doe''
   = (Inr (JObj [(''{{NAME}}'', JStr ''Jane Doe'')]),
      Some \<lparr>base_url = ''https://openrouter.ai/api/v1'', api_key = ''sk-or-1'',
            default_headers = [(''Authorization'', ''Bearer sk-or-1''),
                               (''HTTP-Referer'', ''https://openrouter.ai''),
                               (''X-Title'', ''Insurance-GLR-Streamlit-App'')]\<rparr>) \<and>
   call_llm_to_get_field_mapping
     \<lparr>environ = [''OPENROUTER_API_KEY'' \<mapsto> ''sk-or-1''],
      chat_completions_create = (\<lambda>cl rq. Inr (Some ''{\"answer\": 1}'')),
      json_loads = (\<lambda>s. if s = ''{\"answer\": 1}''
                         then Some (JObj [(''answer'', JNum ''1'')])
                         else None)\<rparr>
     None ''{{NAME}}'' ''Insured: Jane Doe''
   = (Inr (JObj []),
      Some \<lparr>base_url = ''https://openrouter.ai/api/v1'', api_key = ''sk-or-1'',
            default_headers = [(''Authorization'', ''Bearer sk-or-1''),
                               (''HTTP-Referer'', ''https://openrouter.ai''),
                               (''X-Title'', ''Insurance-GLR-Streamlit-App'')]\<rparr>)"
  using call_llm_returns_fields
      [of "\<lparr>environ = [''OPENROUTER_API_KEY'' \<mapsto> ''sk-or-1''],
            chat_completions_create = (\<lambda>cl rq. Inr (Some ''{\"fields\": {\"{{NAME}}\": \"Jane Doe\"}}'')),
            json_loads = (\<lambda>s. if s = ''{\"fields\": {\"{{NAME}}\": \"Jane Doe\"}}''
                               then Some (JObj [(''fields'', JObj [(''{{NAME}}'', JStr ''Jane Doe'')])])
                               else None)\<rparr>"
          None
          "\<lparr>base_url = ''https://openrouter.ai/api/v1'', api_key = ''sk-or-1'',
            default_headers = [(''Authorization'', ''Bearer sk-or-1''),
                               (''HTTP-Referer'', ''https://openrouter.ai''),
                               (''X-Title'', ''Insurance-GLR-Streamlit-App'')]\<rparr>"
          "Some \<lparr>base_url = ''https://openrouter.ai/api/v1'', api_key = ''sk-or-1'',
            default_headers = [(''Authorization'', ''Bearer sk-or-1''),
                               (''HTTP-Referer'', ''https://openrouter.ai''),
                               (''X-Title'', ''Insurance-GLR-Streamlit-App'')]\<rparr>"
          "''{{NAME}}''" "''Insured: Jane Doe''"
          "''{\"fields\": {\"{{NAME}}\": \"Jane Doe\"}}''"
          "[(''fields'', JObj [(''{{NAME}}'', JStr ''Jane Doe'')])]"
          "JObj [(''{{NAME}}'', JStr ''Jane Doe'')]"]
    call_llm_returns_fields
      [of "\<lparr>environ = [''OPENROUTER_API_KEY'' \<mapsto> ''sk-or-1''],
            chat_completions_create = (\<lambda>cl rq. Inr (Some ''{\"answer\": 1}'')),
            json_loads = (\<lambda>s. if s = ''{\"answer\": 1}''
                               then Some (JObj [(''answer'', JNum ''1'')])
                               else None)\<rparr>"
          None
          "\<lparr>base_url = ''https://openrouter.ai/api/v1'', api_key = ''sk-or-1'',
            default_headers = [(''Authorization'', ''Bearer sk-or-1''),
                               (''HTTP-Referer'', ''https://openrouter.ai''),
                               (''X-Title'', ''Insurance-GLR-Streamlit-App'')]\<rparr>"
          "Some \<lparr>base_url = ''https://openrouter.ai/api/v1'', api_key = ''sk-or-1'',
            default_headers = [(''Authorization'', ''Bearer sk-or-1''),
                               (''HTTP-Referer'', ''https://openrouter.ai''),
                               (''X-Title'', ''Insurance-GLR-Streamlit-App'')]\<rparr>"
          "''{{NAME}}''" "''Insured: Jane Doe''"
          "''{\"answer\": 1}''"
          "[(''answer'', JNum ''1'')]"]
  by (simp add: get_llm_client_def new_llm_client_def)

subsection \<open>C6: a response that is not JSON\<close>

text \<open>
  C6: when the content of the response is not valid JSON, \<open>call_llm_to_get_field_mapping\<close>
  raises the parser's \<open>JSONDecodeError\<close>. In a run of the action that got as far as the
  response, the preconditions and both extractions behind it, nothing catches the
  exception: the run ends with it, the filler is not called and no document is offered
  for download.
\<close>

theorem invalid_json_is_uncaught:
  assumes "get_llm_client (environ ext) cache = (Inr cl, cache')"
    and "chat_completions_create ext cl (completion_request template_text reports_text)
           = Inr (Some raw)"
    and "json_loads ext raw = None"
  shows "call_llm_to_get_field_mapping ext cache template_text reports_text
           = (Inl JSONDecodeError, cache') \<and>
         (pdf_files \<noteq> [] \<and> extract_text_from_pdfs pdf_files = Inr reports_text \<and>
          extract_text_from_docx temp_bytes = Inr template_text \<longrightarrow>
            outcome (generate_filled_template ext cache (Some temp_bytes) pdf_files)
              = Uncaught JSONDecodeError \<and>
            downloads (generate_filled_template ext cache (Some temp_bytes) pdf_files) = [] \<and>
            Call_fill_template_docx
              \<notin> set (events (generate_filled_template ext cache (Some temp_bytes) pdf_files)))"
proof -
  have call: "call_llm_to_get_field_mapping ext cache template_text reports_text
                = (Inl JSONDecodeError, cache')"
    using assms by (simp add: call_llm_parsed loads_def)
  then show ?thesis
    by (simp add: generate_filled_template_def downloads_def)
qed

text \<open>
  An instance: the model answers in prose.
\<close>

theorem invalid_json_is_uncaught_witness:
  "call_llm_to_get_field_mapping
     \<lparr>environ = [''OPENROUTER_API_KEY'' \<mapsto> ''sk-or-1''],
      chat_completions_create = (\<lambda>cl rq. Inr (Some ''Sure! Here are the fields:'')),
      json_loads = (\<lambda>s. None)\<rparr>
     None ''{{NAME}}'' ''Insured: Jane Doe''
   = (Inl JSONDecodeError,
      Some \<lparr>base_url = ''https://openrouter.ai/api/v1'', api_key = ''sk-or-1'',
            default_headers = [(''Authorization'', ''Bearer sk-or-1''),
                               (''HTTP-Referer'', ''https://openrouter.ai''),
                               (''X-Title'', ''Insurance-GLR-Streamlit-App'')]\<rparr>) \<and>
   outcome (generate_filled_template
     \<lparr>environ = [''OPENROUTER_API_KEY'' \<mapsto> ''sk-or-1''],
      chat_completions_create = (\<lambda>cl rq. Inr (Some ''Sure! Here are the fields:'')),
      json_loads = (\<lambda>s. None)\<rparr>
     None
     (Some (Inr \<lparr>paragraphs = [\<lparr>style = None, runs = [''{{NAME}}'']\<rparr>], tables = []\<rparr>))
     [Inr [Inr (Some ''Insured: Jane Doe'')]])
   = Uncaught JSONDecodeError \<and>
   downloads (generate_filled_template
     \<lparr>environ = [''OPENROUTER_API_KEY'' \<mapsto> ''sk-or-1''],
      chat_completions_create = (\<lambda>cl rq. Inr (Some ''Sure! Here are the fields:'')),
      json_loads = (\<lambda>s. None)\<rparr>
     None
     (Some (Inr \<lparr>paragraphs = [\<lparr>style = None, runs = [''{{NAME}}'']\<rparr>], tables = []\<rparr>))
     [Inr [Inr (Some ''Insured: Jane Doe'')]])
   = []"
  using invalid_json_is_uncaught
      [of "\<lparr>environ = [''OPENROUTER_API_KEY'' \<mapsto> ''sk-or-1''],
            chat_completions_create = (\<lambda>cl rq. Inr (Some ''Sure! Here are the fields:'')),
            json_loads = (\<lambda>s. None)\<rparr>"
          None
          "\<lparr>base_url = ''https://openrouter.ai/api/v1'', api_key = ''sk-or-1'',
            default_headers = [(''Authorization'', ''Bearer sk-or-1''),
                               (''HTTP-Referer'', ''https://openrouter.ai''),
                               (''X-Title'', ''Insurance-GLR-Streamlit-App'')]\<rparr>"
          "Some \<lparr>base_url = ''https://openrouter.ai/api/v1'', api_key = ''sk-or-1'',
            default_headers = [(''Authorization'', ''Bearer sk-or-1''),
                               (''HTTP-Referer'', ''https://openrouter.ai''),
                               (''X-Title'', ''Insurance-GLR-Streamlit-App'')]\<rparr>"
          "''{{NAME}}''" "''Insured: Jane Doe''"
          "''Sure! Here are the fields:''"
          "[Inr [Inr (Some ''Insured: Jane Doe'')]]"
          "Inr \<lparr>paragraphs = [\<lparr>style = None, runs = [''{{NAME}}'']\<rparr>], tables = []\<rparr>"]
  by (simp add: get_llm_client_def new_llm_client_def extract_text_from_pdfs_def
        extract_text_from_docx_def append_paragraphs_def paragraph_text_def or_empty_def)

subsection \<open>C7: the credential\<close>

text \<open>
  C7, as stated: when the credential is present in the process configuration, a client
  is constructed and returned. A variable that is set to the empty string, as by the
  line \<open>OPENROUTER_API_KEY=\<close> of a \<open>.env\<close> file, is present, and \<open>get_llm_client\<close> raises the
  configuration error all the same: \<open>not api_key\<close> holds of the empty string.
\<close>

theorem empty_credential_counterexample:
  "[''OPENROUTER_API_KEY'' \<mapsto> ''''] ''OPENROUTER_API_KEY'' = Some '''' \<and>
   get_llm_client [''OPENROUTER_API_KEY'' \<mapsto> ''''] None
     = (Inl (ValueError ''OPENROUTER_API_KEY not found in .env''), None)"
  by (simp add: get_llm_client_def new_llm_client_def)

text \<open>
  C7, amended: if the API-key credential is absent from the process configuration, or
  is the empty string, the first use of the gateway, the construction of the client in
  \<open>get_llm_client\<close>, raises a configuration error and no client is kept; when the
  credential is present and not empty, a client is constructed with the endpoint and
  the bearer credential, returned, and kept for the later uses.
\<close>

theorem get_llm_client_first_use:
  "(env ''OPENROUTER_API_KEY'' = None \<or> env ''OPENROUTER_API_KEY'' = Some [] \<longrightarrow>
      get_llm_client env None
        = (Inl (ValueError ''OPENROUTER_API_KEY not found in .env''), None)) \<and>
   (env ''OPENROUTER_API_KEY'' = Some k \<and> k \<noteq> [] \<longrightarrow>
      (\<exists>cl. get_llm_client env None = (Inr cl, Some cl) \<and>
            api_key cl = k \<and>
            base_url cl = ''https://openrouter.ai/api/v1'' \<and>
            map_of (default_headers cl) ''Authorization'' = Some (''Bearer '' @ k)))"
  by (auto simp: get_llm_client_def new_llm_client_def)

text \<open>
  Two instances: an empty environment, and one holding a key.
\<close>

theorem get_llm_client_first_use_witness:
  "get_llm_client Map.empty None
     = (Inl (ValueError ''OPENROUTER_API_KEY not found in .env''), None) \<and>
   (\<exists>cl. get_llm_client [''OPENROUTER_API_KEY'' \<mapsto> ''sk-or-1''] None = (Inr cl, Some cl) \<and>
         api_key cl = ''sk-or-1'' \<and>
         base_url cl = ''https://openrouter.ai/api/v1'' \<and>
         map_of (default_headers cl) ''Authorization'' = Some ''Bearer sk-or-1'')"
  using get_llm_client_first_use [of Map.empty]
    get_llm_client_first_use [of "[''OPENROUTER_API_KEY'' \<mapsto> ''sk-or-1'']" "''sk-or-1''"]
  by simp

subsection \<open>C8: the preconditions\<close>

text \<open>
  C8: when no template is uploaded, or no report, the action shows an error and stops;
  the run calls none of the extractors, the gateway and the filler, and offers no
  document.
\<close>

theorem missing_upload_stops_before_components:
  "template_file = None \<or> pdf_files = [] \<Longrightarrow>
     outcome (generate_filled_template ext cache template_file pdf_files) = Stopped \<and>
     component_calls (generate_filled_template ext cache template_file pdf_files) = [] \<and>
     downloads (generate_filled_template ext cache template_file pdf_files) = [] \<and>
     (\<exists>msg. events (generate_filled_template ext cache template_file pdf_files)
              = [StError msg, StStop])"
  by (auto simp: generate_filled_template_def component_calls_def downloads_def
        is_component_call_def split: option.splits)

text \<open>
  Two instances: reports without a template, and a template without reports.
\<close>

theorem missing_upload_stops_before_components_witness:
  "outcome (generate_filled_template
              \<lparr>environ = Map.empty,
               chat_completions_create = (\<lambda>cl rq. Inl (LibraryError ''offline'')),
               json_loads = (\<lambda>s. None)\<rparr>
              None None [Inr [Inr (Some ''report'')]]) = Stopped \<and>
   component_calls (generate_filled_template
              \<lparr>environ = Map.empty,
               chat_completions_create = (\<lambda>cl rq. Inl (LibraryError ''offline'')),
               json_loads = (\<lambda>s. None)\<rparr>
              None None [Inr [Inr (Some ''report'')]]) = [] \<and>
   component_calls (generate_filled_template
              \<lparr>environ = Map.empty,
               chat_completions_create = (\<lambda>cl rq. Inl (LibraryError ''offline'')),
               json_loads = (\<lambda>s. None)\<rparr>
              None (Some (Inr \<lparr>paragraphs = [], tables = []\<rparr>)) []) = []"
  using missing_upload_stops_before_components
      [of None "[Inr [Inr (Some ''report'')]]"
          "\<lparr>environ = Map.empty,
            chat_completions_create = (\<lambda>cl rq. Inl (LibraryError ''offline'')),
            json_loads = (\<lambda>s. None)\<rparr>" None]
    missing_upload_stops_before_components
      [of "Some (Inr \<lparr>paragraphs = [], tables = []\<rparr>)" "[]"
          "\<lparr>environ = Map.empty,
            chat_completions_create = (\<lambda>cl rq. Inl (LibraryError ''offline'')),
            json_loads = (\<lambda>s. None)\<rparr>" None]
  by simp

subsection \<open>C9: the empty key\<close>

text \<open>
  C9, as stated: a mapping that holds the empty string as a key, with a value that is
  not empty, does not leave a text unchanged. The entries iterated after the empty key
  are applied to what it produced, and can undo it: \<open>{"": "x", "x": ""}\<close> turns \<open>"ab"\<close>
  into \<open>"xaxbx"\<close> and then back into \<open>"ab"\<close>.
\<close>

theorem empty_key_counterexample:
  "replace (JObj [('''', JStr ''x''), (''x'', JStr '''')]) ''ab'' = Inr ''ab''"
  by (simp add: replace_def items_def str_replace_def replace_interleave_def)

lemma set_boundary: "set v \<subseteq> set (at_every_boundary v s)"
  by (induction s) auto

lemma for_each_first_raises: "f x = Inl e \<Longrightarrow> for_each f (x # xs) = Inl e"
  by simp

text \<open>
  C9, amended: the entry for the empty key, with a value \<open>v\<close> that is not empty, lays \<open>v\<close>
  before each character and after the last of the text it is applied to, the text the
  entries iterated before it left, and so changes that text; entries iterated after
  it are applied to the result and may change it again. When it is the only entry of
  the mapping and XML carries every character of \<open>v\<close> and of the template, every
  paragraph of the output reads as its text with \<open>v\<close> at every character boundary and
  each carriage return turned into a newline, and every cell as its text with that done
  once for each time the table lists the cell, more than once for a merged cell. When
  \<open>v\<close> holds a character XML does not carry and the template has a paragraph, the
  filler raises \<open>ValueError\<close> and returns no document.
\<close>

theorem empty_key_at_every_boundary:
  assumes "v \<noteq> []"
  shows "replace (str_dict (m @ [([], v)])) s = Inr (at_every_boundary v (substitute m s)) \<and>
         at_every_boundary v (substitute m s) \<noteq> substitute m s \<and>
         (xml_text v \<and> xml_document doc \<longrightarrow>
            (\<exists>doc'. fill_template_docx (Inr doc) (str_dict [([], v)]) = Inr doc' \<and>
                    paragraph_texts doc'
                      = map (\<lambda>s. read_back (at_every_boundary v s)) (paragraph_texts doc) \<and>
                    cell_texts doc'
                      = map (\<lambda>t. map (\<lambda>r. map (\<lambda>i. ((\<lambda>s. read_back (at_every_boundary v s))
                                                      ^^ times_listed t i)
                                                     (cell_text (table_cells t i)))
                                          (cells r)) (rows t)) (tables doc))) \<and>
         (\<not> xml_text v \<and> paragraphs doc \<noteq> [] \<longrightarrow>
            fill_template_docx (Inr doc) (str_dict [([], v)]) = Inl xml_error)"
proof -
  have a: "replace (str_dict (m @ [([], v)])) s = Inr (at_every_boundary v (substitute m s))"
    by (simp only: replace_str_dict substitute_snoc str_replace_empty)
  from assms have b: "at_every_boundary v (substitute m s) \<noteq> substitute m s"
    by (rule boundary_neq)
  have ft: "filled_text [([], v)] = (\<lambda>s. read_back (at_every_boundary v s))"
    by (rule ext) (simp add: filled_text_def substitute_empty_key)
  have c: "\<exists>doc'. fill_template_docx (Inr doc) (str_dict [([], v)]) = Inr doc' \<and>
                  paragraph_texts doc'
                    = map (\<lambda>s. read_back (at_every_boundary v s)) (paragraph_texts doc) \<and>
                  cell_texts doc'
                    = map (\<lambda>t. map (\<lambda>r. map (\<lambda>i. ((\<lambda>s. read_back (at_every_boundary v s))
                                                    ^^ times_listed t i)
                                                   (cell_text (table_cells t i)))
                                        (cells r)) (rows t)) (tables doc)"
    if "xml_text v" and d: "xml_document doc"
  proof -
    from that have m: "xml_mapping [([], v)]"
      by (simp add: xml_mapping_def)
    obtain doc' where f: "fill_template_docx (Inr doc) (str_dict [([], v)]) = Inr doc'"
      using fill_template_str [OF m d] by simp
    have "paragraph_texts doc'
            = map (\<lambda>s. read_back (at_every_boundary v s)) (paragraph_texts doc)"
      using filled_texts(1) [OF m d f] by (simp only: ft)
    moreover have "cell_texts doc'
            = map (\<lambda>t. map (\<lambda>r. map (\<lambda>i. ((\<lambda>s. read_back (at_every_boundary v s))
                                            ^^ times_listed t i)
                                           (cell_text (table_cells t i)))
                                (cells r)) (rows t)) (tables doc)"
      using filled_texts(2) [OF m d f] by (simp only: ft)
    ultimately show ?thesis
      using f by blast
  qed
  have d: "fill_template_docx (Inr doc) (str_dict [([], v)]) = Inl xml_error"
    if nv: "\<not> xml_text v" and "paragraphs doc \<noteq> []"
  proof -
    from that obtain p ps where ps: "paragraphs doc = p # ps"
      by (cases "paragraphs doc") auto
    have "\<not> xml_text (at_every_boundary v (paragraph_text p))"
      using nv set_boundary [of v "paragraph_text p"] by (auto simp: xml_text_iff)
    then have "fill_paragraph (str_dict [([], v)]) p = Inl xml_error"
      by (simp add: fill_paragraph_def replace_str_dict substitute_empty_key
            set_paragraph_text_def)
    then have "for_each (fill_paragraph (str_dict [([], v)])) (paragraphs doc) = Inl xml_error"
      unfolding ps by (rule for_each_first_raises)
    then show ?thesis
      by (simp add: fill_template_docx_def)
  qed
  from a b c d show ?thesis
    by blast
qed

text \<open>
  An instance: \<open>{"a": "b", "": "x"}\<close> on \<open>"ac"\<close>, and \<open>{"": "x"}\<close> on a document with a
  merged cell that its row lists twice.
\<close>

theorem empty_key_at_every_boundary_witness:
  "replace (str_dict ([(''a'', ''b'')] @ [('''', ''x'')])) ''ac'' = Inr ''xbxcx'' \<and>
   (\<exists>doc'. fill_template_docx
             (Inr \<lparr>paragraphs = [\<lparr>style = None, runs = [''ab'']\<rparr>],
                   tables = [\<lparr>table_cells = cells_of [\<lparr>cell_paragraphs = [\<lparr>style = None, runs = [''c'']\<rparr>]\<rparr>,
                                               \<lparr>cell_paragraphs = [\<lparr>style = None, runs = [''c'']\<rparr>]\<rparr>],
                              rows = [\<lparr>cells = [0, 0]\<rparr>, \<lparr>cells = [1]\<rparr>]\<rparr>]\<rparr>)
             (str_dict [('''', ''x'')]) = Inr doc' \<and>
           paragraph_texts doc' = [''xaxbx''] \<and>
           cell_texts doc' = [[[''xxxcxxx'', ''xxxcxxx''], [''xcx'']]])"
  using empty_key_at_every_boundary
    [of "''x''" "[(''a'', ''b'')]" "''ac''"
        "\<lparr>paragraphs = [\<lparr>style = None, runs = [''ab'']\<rparr>],
          tables = [\<lparr>table_cells = cells_of [\<lparr>cell_paragraphs = [\<lparr>style = None, runs = [''c'']\<rparr>]\<rparr>,
                                               \<lparr>cell_paragraphs = [\<lparr>style = None, runs = [''c'']\<rparr>]\<rparr>],
                     rows = [\<lparr>cells = [0, 0]\<rparr>, \<lparr>cells = [1]\<rparr>]\<rparr>]\<rparr>"]
  by (simp add: substitute_def str_replace_def xml_document_def xml_table_def xml_cell_def
        xml_para_def xml_text_def xml_char_def listed_cells_def times_listed_def
        paragraph_texts_def cell_texts_def paragraph_text_def cell_text_def read_back_def
        numeral_2_eq_2 cells_of_def)

subsection \<open>C10: the structure of the document\<close>

lemma all2_map_eq2: "list_all2 (\<lambda>x y. g y = h x) xs ys \<Longrightarrow> map g ys = map h xs"
  by (induction rule: list_all2_induct) auto

lemma set_cell_text_styles:
  "set_cell_text s c = Inr c' \<Longrightarrow> map style (cell_paragraphs c') = [None]"
  by (auto simp: set_cell_text_def split: if_splits)

lemma fill_cell_object_styles:
  "fill_cell_object fv c = Inr c' \<Longrightarrow> map style (cell_paragraphs c') = [None]"
  by (auto simp: fill_cell_object_def split: sum.splits dest: set_cell_text_styles)

lemma fill_cells_styles:
  "for_each_in (fill_cell fv) ids objs = Inr objs' \<Longrightarrow>
     j \<in> set ids \<or> map style (cell_paragraphs (objs j)) = [None] \<Longrightarrow>
     map style (cell_paragraphs (objs' j)) = [None]"
proof (induction ids arbitrary: objs)
  case Nil
  then show ?case by simp
next
  case (Cons i ids)
  from Cons.prems(1) obtain objs1 where
    one: "fill_cell fv objs i = Inr objs1" and rest: "for_each_in (fill_cell fv) ids objs1 = Inr objs'"
    by (auto split: sum.splits)
  from one obtain c where c: "fill_cell_object fv (objs i) = Inr c" and objs1: "objs1 = objs(i := c)"
    by (auto simp: fill_cell_def split: sum.splits)
  from c have "map style (cell_paragraphs c) = [None]"
    by (rule fill_cell_object_styles)
  with Cons.prems(2) have "j \<in> set ids \<or> map style (cell_paragraphs (objs1 j)) = [None]"
    by (auto simp: objs1)
  with rest show ?case
    by (rule Cons.IH)
qed

lemma fill_table_styles:
  assumes "fill_table fv t = Inr t'"
  shows "map (\<lambda>r. map (\<lambda>i. map style (cell_paragraphs (table_cells t' i))) (cells r)) (rows t')
           = map (\<lambda>r. map (\<lambda>i. [None]) (cells r)) (rows t)"
proof -
  from assms have rows: "rows t' = rows t"
    by (rule fill_table_rows)
  from assms have "for_each_in (fill_row fv) (rows t) (table_cells t) = Inr (table_cells t')"
    by (auto simp: fill_table_def split: sum.splits)
  then have loop: "for_each_in (fill_cell fv) (listed_cells t) (table_cells t) = Inr (table_cells t')"
    unfolding fill_row_def [abs_def] listed_cells_def by (simp only: for_each_in_rows)
  have "map style (cell_paragraphs (table_cells t' i)) = [None]"
    if "r \<in> set (rows t)" and "i \<in> set (cells r)" for r i
  proof -
    from that have "i \<in> set (listed_cells t)"
      by (auto simp: listed_cells_def)
    then have "i \<in> set (listed_cells t) \<or> map style (cell_paragraphs (table_cells t i)) = [None]"
      by simp
    with loop show ?thesis
      by (rule fill_cells_styles)
  qed
  then show ?thesis
    unfolding rows by (intro map_cong refl)
qed

lemma fill_cell_styles:
  assumes "fill_template_docx (Inr doc) fv = Inr doc'"
  shows "cell_styles doc' = map (\<lambda>t. map (\<lambda>r. map (\<lambda>i. [None]) (cells r)) (rows t)) (tables doc)"
proof -
  from assms have "for_each (fill_table fv) (tables doc) = Inr (tables doc')"
    by (auto simp: fill_template_docx_def split: sum.splits)
  then have "list_all2 (\<lambda>t t'. fill_table fv t = Inr t') (tables doc) (tables doc')"
    by (rule for_each_all2)
  then have "list_all2 (\<lambda>t t'.
               map (\<lambda>r. map (\<lambda>i. map style (cell_paragraphs (table_cells t' i))) (cells r)) (rows t')
                 = map (\<lambda>r. map (\<lambda>i. [None]) (cells r)) (rows t)) (tables doc) (tables doc')"
    by (rule list_all2_mono) (rule fill_table_styles)
  then show ?thesis
    unfolding cell_styles_def by (rule all2_map_eq2)
qed

text \<open>
  C10, as stated: for every template and every mapping there is an output document, and
  only the text of its paragraphs and cells differs from the template. Assigning
  \<open>cell.text\<close> replaces the paragraphs of the cell by one new paragraph without a style,
  also under the empty mapping; and for a value with a control character the filler
  raises \<open>ValueError\<close> and there is no output document.
\<close>

theorem fill_restyles_cells_counterexample:
  "map_sum id cell_styles
     (fill_template_docx
        (Inr \<lparr>paragraphs = [],
              tables = [\<lparr>table_cells =
                            cells_of [\<lparr>cell_paragraphs = [\<lparr>style = Some ''Heading 1'', runs = [''a'']\<rparr>,
                                                         \<lparr>style = Some ''List Bullet'', runs = [''b'']\<rparr>]\<rparr>],
                         rows = [\<lparr>cells = [0]\<rparr>]\<rparr>]\<rparr>)
        (JObj []))
   = Inr [[[[None]]]] \<and>
   cell_styles
     \<lparr>paragraphs = [],
      tables = [\<lparr>table_cells =
                    cells_of [\<lparr>cell_paragraphs = [\<lparr>style = Some ''Heading 1'', runs = [''a'']\<rparr>,
                                                 \<lparr>style = Some ''List Bullet'', runs = [''b'']\<rparr>]\<rparr>],
                 rows = [\<lparr>cells = [0]\<rparr>]\<rparr>]\<rparr>
   = [[[[Some ''Heading 1'', Some ''List Bullet'']]]] \<and>
   fill_template_docx
     (Inr \<lparr>paragraphs = [\<lparr>style = None, runs = [''{{X}}'']\<rparr>], tables = []\<rparr>)
     (JObj [(''{{X}}'', JStr [CHR 0x01])])
   = Inl xml_error"
  by (simp add: fill_template_docx_def fill_table_def fill_row_def fill_cell_def
        fill_cell_object_def fill_paragraph_def replace_def items_def str_replace_def
        set_cell_text_def set_paragraph_text_def cell_text_def paragraph_text_def
        cell_styles_def xml_text_def xml_char_def read_back_def newline_def cells_of_def)

text \<open>
  C10, amended: whenever \<open>fill_template_docx\<close> returns a document, that document has as
  many top-level paragraphs as the template, each with the style it had, and the same
  tables: as many tables, as many rows in each, as many cells in each row. More than
  the text changes inside the cells: every cell a table lists is left with a single
  new paragraph without a style. The filler returns a document for every template and
  every mapping of placeholders to strings whose characters XML carries.
\<close>

theorem fill_keeps_structure:
  "(\<forall>d. fill_template_docx (Inr doc) field_values = Inr d \<longrightarrow>
          length (paragraphs d) = length (paragraphs doc) \<and>
          map style (paragraphs d) = map style (paragraphs doc) \<and>
          table_grid d = table_grid doc \<and>
          cell_styles d = map (\<lambda>t. map (\<lambda>r. map (\<lambda>i. [None]) (cells r)) (rows t)) (tables doc)) \<and>
   (xml_mapping m \<and> xml_document doc \<longrightarrow>
      (\<exists>doc'. fill_template_docx (Inr doc) (str_dict m) = Inr doc'))"
proof (intro conjI allI impI)
  fix d
  assume f: "fill_template_docx (Inr doc) field_values = Inr d"
  from f show "length (paragraphs d) = length (paragraphs doc)"
    by (rule fill_structure(1))
  from f show "map style (paragraphs d) = map style (paragraphs doc)"
    by (rule fill_structure(2))
  from f show "table_grid d = table_grid doc"
    by (rule fill_structure(3))
  from f show "cell_styles d = map (\<lambda>t. map (\<lambda>r. map (\<lambda>i. [None]) (cells r)) (rows t)) (tables doc)"
    by (rule fill_cell_styles)
next
  assume "xml_mapping m \<and> xml_document doc"
  then show "\<exists>doc'. fill_template_docx (Inr doc) (str_dict m) = Inr doc'"
    by (simp add: fill_template_str)
qed

text \<open>
  An instance: a placeholder split over two runs of a styled paragraph, and a table of
  one row and two cells, one of them with a styled paragraph.
\<close>

theorem fill_keeps_structure_witness:
  "\<exists>doc'. fill_template_docx
            (Inr \<lparr>paragraphs = [\<lparr>style = Some ''Title'', runs = [''Dear {{NA'', ''ME}}'']\<rparr>],
                  tables = [\<lparr>table_cells =
                                cells_of [\<lparr>cell_paragraphs = [\<lparr>style = Some ''Heading 1'', runs = [''{{NAME}}'']\<rparr>,
                                                             \<lparr>style = None, runs = [''x'']\<rparr>]\<rparr>,
                                           \<lparr>cell_paragraphs = []\<rparr>],
                             rows = [\<lparr>cells = [0, 1]\<rparr>]\<rparr>]\<rparr>)
            (str_dict [(''{{NAME}}'', ''Jane Doe'')]) = Inr doc' \<and>
          length (paragraphs doc') = 1 \<and>
          map style (paragraphs doc') = [Some ''Title''] \<and>
          table_grid doc' = [[2]] \<and>
          cell_styles doc' = [[[[None], [None]]]]"
  using fill_keeps_structure
    [of "\<lparr>paragraphs = [\<lparr>style = Some ''Title'', runs = [''Dear {{NA'', ''ME}}'']\<rparr>],
          tables = [\<lparr>table_cells =
                        cells_of [\<lparr>cell_paragraphs = [\<lparr>style = Some ''Heading 1'', runs = [''{{NAME}}'']\<rparr>,
                                                     \<lparr>style = None, runs = [''x'']\<rparr>]\<rparr>,
                                   \<lparr>cell_paragraphs = []\<rparr>],
                     rows = [\<lparr>cells = [0, 1]\<rparr>]\<rparr>]\<rparr>"
        "str_dict [(''{{NAME}}'', ''Jane Doe'')]"
        "[(''{{NAME}}'', ''Jane Doe'')]"]
  by (auto simp: xml_mapping_def xml_document_def xml_table_def xml_cell_def xml_para_def
        xml_text_def xml_char_def listed_cells_def table_grid_def cells_of_def)

end
